theory Spec2Isabelle
  imports Main "HOL-Library.FSet" "HOL-Library.Sublist"
begin

section \<open>Python values and the operations the scraper applies to them\<close>

text \<open>
  The provider's responses are JSON documents; after \<^verbatim>\<open>response.json()\<close> they are Python
  dicts, lists, strings, integers, booleans and \<^verbatim>\<open>None\<close>. A dict is an association list
  (a parsed dict has each key once; lookup takes the first binding). Strings are
  \<^typ>\<open>string\<close>, that is lists of 8-bit characters. Numbers are integers: the one number
  the scraper computes with is the epoch-milliseconds field.
  The values returned by the helper functions of \<^verbatim>\<open>jobspy.util\<close> and
  \<^verbatim>\<open>jobspy.indeed.util\<close> are carried in the same type.
\<close>

datatype json =
    JNull
  | JBool bool
  | JInt int
  | JStr string
  | JArr "json list"
  | JObj "(string \<times> json) list"

text \<open>Every exception class the code can raise is a value; \<open>Inl\<close> carries it.\<close>

datatype error =
    KeyError
  | TypeError
  | AttributeError
  | IndexError
  | ValueError
  | JSONDecodeError
  | TransportError

definition bind_err :: "error + 'a \<Rightarrow> ('a \<Rightarrow> error + 'b) \<Rightarrow> error + 'b" where
  "bind_err m f = (case m of Inl e \<Rightarrow> Inl e | Inr x \<Rightarrow> f x)"

text \<open>Truth value testing: \<^verbatim>\<open>if v:\<close>.\<close>

fun truthy :: "json \<Rightarrow> bool" where
  "truthy JNull = False"
| "truthy (JBool b) = b"
| "truthy (JInt n) = (n \<noteq> 0)"
| "truthy (JStr s) = (s \<noteq> [])"
| "truthy (JArr xs) = (xs \<noteq> [])"
| "truthy (JObj kvs) = (kvs \<noteq> [])"

text \<open>\<^verbatim>\<open>v[k]\<close> with a string key: only a dict accepts it, and a missing key raises.\<close>

fun subscr :: "json \<Rightarrow> string \<Rightarrow> error + json" where
  "subscr (JObj kvs) k = (case map_of kvs k of None \<Rightarrow> Inl KeyError | Some v \<Rightarrow> Inr v)"
| "subscr v k = Inl TypeError"

text \<open>\<^verbatim>\<open>v[0]\<close>: the first element of a list or string; a dict has no key \<open>0\<close>.\<close>

fun subscr0 :: "json \<Rightarrow> error + json" where
  "subscr0 (JArr []) = Inl IndexError"
| "subscr0 (JArr (x # xs)) = Inr x"
| "subscr0 (JStr []) = Inl IndexError"
| "subscr0 (JStr (c # cs)) = Inr (JStr [c])"
| "subscr0 (JObj kvs) = Inl KeyError"
| "subscr0 v = Inl TypeError"

text \<open>\<^verbatim>\<open>v.get(k, d)\<close> and \<^verbatim>\<open>v.get(k)\<close>: a method of dicts only.\<close>

fun py_get_default :: "json \<Rightarrow> string \<Rightarrow> json \<Rightarrow> error + json" where
  "py_get_default (JObj kvs) k d = (case map_of kvs k of None \<Rightarrow> Inr d | Some v \<Rightarrow> Inr v)"
| "py_get_default v k d = Inl AttributeError"

definition py_get :: "json \<Rightarrow> string \<Rightarrow> error + json" where
  "py_get v k = py_get_default v k JNull"

text \<open>\<^verbatim>\<open>for x in v\<close>: a list gives its elements, a string its characters, a dict its keys.\<close>

fun py_iter :: "json \<Rightarrow> error + json list" where
  "py_iter (JArr xs) = Inr xs"
| "py_iter (JStr s) = Inr (map (\<lambda>c. JStr [c]) s)"
| "py_iter (JObj kvs) = Inr (map (\<lambda>kv. JStr (fst kv)) kvs)"
| "py_iter v = Inl TypeError"

subsection \<open>Strings\<close>

definition digit_char :: "nat \<Rightarrow> char" where
  "digit_char d = ''0123456789'' ! d"

fun show_nat :: "nat \<Rightarrow> string" where
  "show_nat n = (if n < 10 then [digit_char n] else show_nat (n div 10) @ [digit_char (n mod 10)])"

declare show_nat.simps [simp del]

definition show_int :: "int \<Rightarrow> string" where
  "show_int i = (if i < 0 then CHR ''-'' # show_nat (nat (- i)) else show_nat (nat i))"

text \<open>\<^verbatim>\<open>str(v)\<close> and \<^verbatim>\<open>f"{v}"\<close>. The text of a list or dict is left to \<open>R\<close>.\<close>

fun py_str :: "(json \<Rightarrow> string) \<Rightarrow> json \<Rightarrow> string" where
  "py_str R JNull = ''None''"
| "py_str R (JBool b) = (if b then ''True'' else ''False'')"
| "py_str R (JInt n) = show_int n"
| "py_str R (JStr s) = s"
| "py_str R v = R v"

definition fmt_opt :: "string option \<Rightarrow> string" where
  "fmt_opt v = (case v of None \<Rightarrow> ''None'' | Some s \<Rightarrow> s)"

definition fmt_int_opt :: "int option \<Rightarrow> string" where
  "fmt_int_opt v = (case v of None \<Rightarrow> ''None'' | Some n \<Rightarrow> show_int n)"

text \<open>\<^verbatim>\<open>s.zfill(k)\<close> on digits, as \<^verbatim>\<open>%Y\<close>, \<^verbatim>\<open>%m\<close> and \<^verbatim>\<open>%d\<close> pad.\<close>

definition zfill :: "nat \<Rightarrow> string \<Rightarrow> string" where
  "zfill k s = replicate (k - length s) (CHR ''0'') @ s"

text \<open>\<^verbatim>\<open>d[k] = v\<close> on a dict kept as an association list.\<close>

fun dict_set :: "'k \<Rightarrow> 'v \<Rightarrow> ('k \<times> 'v) list \<Rightarrow> ('k \<times> 'v) list" where
  "dict_set k v [] = [(k, v)]"
| "dict_set k v ((k', v') # kvs) = (if k = k' then (k, v) # kvs else (k', v') # dict_set k v kvs)"

text \<open>\<^verbatim>\<open>xs[start:stop]\<close>: a negative bound counts from the end, and both are clamped.\<close>

definition py_slice :: "'a list \<Rightarrow> int \<Rightarrow> int \<Rightarrow> 'a list" where
  "py_slice xs start stop =
     (let n = int (length xs);
          lo = (if start < 0 then max (start + n) 0 else min start n);
          hi = (if stop < 0 then max (stop + n) 0 else min stop n)
      in take (nat (hi - lo)) (drop (nat lo) xs))"

text \<open>\<^verbatim>\<open>sep.join(xs)\<close>.\<close>

fun join :: "string \<Rightarrow> string list \<Rightarrow> string" where
  "join sep [] = []"
| "join sep [x] = x"
| "join sep (x # y # ys) = x @ sep @ join sep (y # ys)"

text \<open>\<^verbatim>\<open>s.replace(old, new)\<close> for a non-empty \<open>old\<close>: occurrences are replaced from the
  left, without overlap.\<close>

function str_replace :: "string \<Rightarrow> string \<Rightarrow> string \<Rightarrow> string" where
  "str_replace old new [] = []"
| "str_replace old new (c # cs) =
     (if old \<noteq> [] \<and> prefix old (c # cs)
      then new @ str_replace old new (drop (length old) (c # cs))
      else c # str_replace old new cs)"
  by pat_completeness auto
termination
  by (relation "measure (\<lambda>(old, new, s). length s)") auto

definition is_upper :: "char \<Rightarrow> bool" where
  "is_upper c = (65 \<le> (of_char c :: nat) \<and> (of_char c :: nat) \<le> 90)"

definition is_lower :: "char \<Rightarrow> bool" where
  "is_lower c = (97 \<le> (of_char c :: nat) \<and> (of_char c :: nat) \<le> 122)"

definition to_upper :: "char \<Rightarrow> char" where
  "to_upper c = (if is_lower c then char_of ((of_char c :: nat) - 32) else c)"

definition to_lower :: "char \<Rightarrow> char" where
  "to_lower c = (if is_upper c then char_of ((of_char c :: nat) + 32) else c)"

text \<open>\<^verbatim>\<open>s.title()\<close> on ASCII text: a letter that follows a letter is lowered, any other
  letter is raised.\<close>

fun title_from :: "bool \<Rightarrow> string \<Rightarrow> string" where
  "title_from prev [] = []"
| "title_from prev (c # cs) =
     (if is_upper c \<or> is_lower c
      then (if prev then to_lower c else to_upper c) # title_from True cs
      else c # title_from False cs)"

definition str_title :: "string \<Rightarrow> string" where
  "str_title s = title_from False s"

definition is_space :: "char \<Rightarrow> bool" where
  "is_space c = ((of_char c :: nat) = 32 \<or> (9 \<le> (of_char c :: nat) \<and> (of_char c :: nat) \<le> 13)
                 \<or> (28 \<le> (of_char c :: nat) \<and> (of_char c :: nat) \<le> 31))"

definition str_strip :: "string \<Rightarrow> string" where
  "str_strip s = rev (dropWhile is_space (rev (dropWhile is_space s)))"

section \<open>Search criteria\<close>

text \<open>
  Modelled from the spec: the declarations of \<^verbatim>\<open>ScraperInput\<close>, \<^verbatim>\<open>JobType\<close>,
  \<^verbatim>\<open>DescriptionFormat\<close> and \<^verbatim>\<open>Country\<close> are in \<^verbatim>\<open>jobspy.model\<close>, which is not among
  the sources. The fields and enumeration members are those of the spec's data model;
  \<open>country\<close> is the pair \<^verbatim>\<open>country.indeed_domain_value\<close> (domain, API country code).
\<close>

datatype JobType = FULL_TIME | PART_TIME | CONTRACT | INTERNSHIP

datatype DescriptionFormat = PLAIN | MARKDOWN

record scraper_input =
  search_term :: "string option"
  location :: "string option"
  distance :: "int option"
  hours_old :: "int option"
  job_type :: "JobType option"
  is_remote :: bool
  easy_apply :: bool
  results_wanted :: int
  offset :: int
  description_format :: DescriptionFormat
  country :: "string \<times> string"

subsection \<open>\<^verbatim>\<open>Indeed._build_filters\<close>\<close>

definition date_filter :: "string \<Rightarrow> string" where
  \<open>date_filter start =
     ''\<newline>            filters: {\<newline>'' @
     ''                date: {\<newline>'' @
     ''                  field: "dateOnIndeed",\<newline>'' @
     ''                  start: "'' @ start @ ''h"\<newline>'' @
     ''                }\<newline>'' @
     ''            }\<newline>'' @
     ''            ''\<close>

definition easy_apply_filter :: string where
  \<open>easy_apply_filter =
     ''\<newline>            filters: {\<newline>'' @
     ''                keyword: {\<newline>'' @
     ''                  field: "indeedApplyScope",\<newline>'' @
     ''                  keys: ["DESKTOP"]\<newline>'' @
     ''                }\<newline>'' @
     ''            }\<newline>'' @
     ''            ''\<close>

definition composite_filter :: "string \<Rightarrow> string" where
  \<open>composite_filter keys_str =
     ''\<newline>                filters: {\<newline>'' @
     ''                  composite: {\<newline>'' @
     ''                    filters: [{\<newline>'' @
     ''                      keyword: {\<newline>'' @
     ''                        field: "attributes",\<newline>'' @
     ''                        keys: ["'' @ keys_str @ ''"]\<newline>'' @
     ''                      }\<newline>'' @
     ''                    }]\<newline>'' @
     ''                  }\<newline>'' @
     ''                }\<newline>'' @
     ''                ''\<close>

fun job_type_key_mapping :: "JobType \<Rightarrow> string" where
  "job_type_key_mapping FULL_TIME = ''CF3CP''"
| "job_type_key_mapping PART_TIME = ''75GKK''"
| "job_type_key_mapping CONTRACT = ''NJXCK''"
| "job_type_key_mapping INTERNSHIP = ''VDTG7''"

text \<open>\<^verbatim>\<open>if self.scraper_input.hours_old:\<close> tests the truth value of an optional integer:
  \<^verbatim>\<open>None\<close> and \<open>0\<close> are both false.\<close>

definition int_opt_truthy :: "int option \<Rightarrow> bool" where
  "int_opt_truthy v = (case v of None \<Rightarrow> False | Some n \<Rightarrow> n \<noteq> 0)"

definition build_filters :: "scraper_input \<Rightarrow> string" where
  \<open>build_filters inp =
     (if int_opt_truthy (hours_old inp) then date_filter (fmt_int_opt (hours_old inp))
      else if easy_apply inp then easy_apply_filter
      else if job_type inp \<noteq> None \<or> is_remote inp then
        (let keys = (case job_type inp of None \<Rightarrow> [] | Some t \<Rightarrow> [job_type_key_mapping t])
                    @ (if is_remote inp then [''DSQF7''] else [])
         in if keys \<noteq> [] then composite_filter (join ''", "'' keys) else [])
      else [])\<close>

section \<open>The posting date\<close>

text \<open>
  \<^verbatim>\<open>datetime.fromtimestamp(t).strftime("%Y-%m-%d")\<close> is the calendar date, in the host's
  local time zone, of the instant \<open>t\<close> seconds after the epoch. The conversion from a
  day number to year, month and day is the standard library's \<^verbatim>\<open>_ord2ymd\<close> (proleptic
  Gregorian calendar, day 1 is 0001-01-01); the host's zone is a function from the
  instant to the offset from UTC in seconds. \<open>t\<close> is \<^verbatim>\<open>datePublished / 1000\<close>, a float
  within a microsecond of the exact quotient, so its whole seconds are
  \<open>datePublished div 1000\<close> and the date does not depend on the fraction.
\<close>

definition DAYS_BEFORE_MONTH :: "int list" where
  "DAYS_BEFORE_MONTH = [-1, 0, 31, 59, 90, 120, 151, 181, 212, 243, 273, 304, 334]"

definition DAYS_IN_MONTH :: "int list" where
  "DAYS_IN_MONTH = [-1, 31, 28, 31, 30, 31, 30, 31, 31, 30, 31, 30, 31]"

text \<open>Month and day of the \<open>n\<close>-th day (from 0) of a year: the estimate
  \<^verbatim>\<open>(n + 50) >> 5\<close> is exact or one too large.\<close>

definition month_day :: "bool \<Rightarrow> int \<Rightarrow> int \<times> int" where
  "month_day leapyear n =
     (let month = (n + 50) div 32;
          preceding = DAYS_BEFORE_MONTH ! nat month + (if month > 2 \<and> leapyear then 1 else 0)
      in if preceding > n
         then (month - 1,
               n - (preceding - (DAYS_IN_MONTH ! nat (month - 1)
                                 + (if month - 1 = 2 \<and> leapyear then 1 else 0))) + 1)
         else (month, n - preceding + 1))"

definition ord2ymd :: "int \<Rightarrow> int \<times> int \<times> int" where
  "ord2ymd n0 =
     (let n = n0 - 1;
          n400 = n div 146097; n = n mod 146097;
          n100 = n div 36524; n = n mod 36524;
          n4 = n div 1461; n = n mod 1461;
          n1 = n div 365; n = n mod 365;
          year = n400 * 400 + 1 + n100 * 100 + n4 * 4 + n1
      in if n1 = 4 \<or> n100 = 4 then (year - 1, 12, 31)
         else (year, month_day (n1 = 3 \<and> (n4 \<noteq> 24 \<or> n100 = 3)) n))"

text \<open>Day 719163 is 1970-01-01. \<^verbatim>\<open>fromtimestamp\<close> raises outside the years 1 to 9999.\<close>

definition local_date :: "(int \<Rightarrow> int) \<Rightarrow> int \<Rightarrow> int \<times> int \<times> int" where
  "local_date utc_offset ms =
     (let t = ms div 1000 in ord2ymd (719163 + (t + utc_offset t) div 86400))"

definition strftime_ymd :: "int \<times> int \<times> int \<Rightarrow> error + string" where
  "strftime_ymd ymd =
     (case ymd of (y, m, d) \<Rightarrow>
        if y < 1 \<or> 9999 < y then Inl ValueError
        else Inr (zfill 4 (show_nat (nat y)) @ ''-'' @ zfill 2 (show_nat (nat m)) @ ''-''
                  @ zfill 2 (show_nat (nat d))))"

text \<open>\<^verbatim>\<open>job["datePublished"] / 1000\<close> needs a number (\<^verbatim>\<open>True\<close> and \<^verbatim>\<open>False\<close> count as 1
  and 0); anything else raises \<^verbatim>\<open>TypeError\<close>.\<close>

fun date_posted_of :: "(int \<Rightarrow> int) \<Rightarrow> json \<Rightarrow> error + string" where
  "date_posted_of utc_offset (JInt ms) = strftime_ymd (local_date utc_offset ms)"
| "date_posted_of utc_offset (JBool b) = strftime_ymd (local_date utc_offset (if b then 1 else 0))"
| "date_posted_of utc_offset v = Inl TypeError"



section \<open>The network, the log and the scraper instance\<close>

text \<open>
  An outbound request is recorded with the arguments the call site passes; an argument
  the call does not pass is \<open>None\<close>. \<open>session\<close> and \<open>html_session\<close> are the two objects
  built by \<^verbatim>\<open>create_session\<close> in \<^verbatim>\<open>__init__\<close>, \<open>req_lib\<close> is the plain
  \<^verbatim>\<open>requests\<close> module.
\<close>

datatype channel = session | html_session | req_lib

datatype http_method = POST | GET

datatype verify_arg = Verify_False | Verify_Path string

record request =
  channel :: channel
  http_method :: http_method
  url :: string
  headers :: "(string \<times> string option) list"
  query :: "string option"
  proxies :: "string option"
  timeout :: "nat option"
  verify :: "verify_arg option"

text \<open>A response carries the attributes the code reads: \<^verbatim>\<open>ok\<close>, \<^verbatim>\<open>status_code\<close> and
  the body (\<^verbatim>\<open>text\<close>). A request either returns a response or raises.\<close>

record response =
  ok :: bool
  status_code :: int
  body_text :: string

datatype outcome = Raises | Returns response

text \<open>Each call of \<^verbatim>\<open>log.info\<close> and \<^verbatim>\<open>log.warning\<close>, with the values it interpolates.\<close>

datatype log_level = INFO | WARNING

datatype log_message =
    Search_page int int
  | Found_no_jobs int
  | Responded_with_status int
  | Tls_retrying_with_proxy int string
  | Http_status_for int string
  | No_hiring_organization string
  | Exception_for string

text \<open>
  What the code takes from outside the module. \<open>net\<close> is the world: the outcome of the
  \<open>n\<close>-th outbound request of the run, given the request. The five helpers and the two
  constants are those imported from \<^verbatim>\<open>jobspy.util\<close>, \<^verbatim>\<open>jobspy.indeed.util\<close> and
  \<^verbatim>\<open>jobspy.indeed.constant\<close> (a helper may raise); \<open>job_search_query\<close> is the template
  applied to its five named fields. \<open>findall_ld_json\<close> is \<^verbatim>\<open>re.findall\<close> with the
  JSON-LD pattern, \<open>json_loads\<close> is \<^verbatim>\<open>json.loads\<close> (\<open>None\<close> for a decode error) and also
  stands for \<^verbatim>\<open>response.json()\<close>.
\<close>

record env =
  net :: "nat \<Rightarrow> request \<Rightarrow> outcome"
  markdown_converter :: "json \<Rightarrow> error + json"
  get_job_type :: "json \<Rightarrow> error + json"
  get_compensation :: "json \<Rightarrow> error + json"
  is_job_remote :: "json \<Rightarrow> json \<Rightarrow> error + json"
  extract_emails_from_text :: "json \<Rightarrow> error + json"
  job_search_query :: "string \<Rightarrow> string \<Rightarrow> int option \<Rightarrow> string \<Rightarrow> string \<Rightarrow> string"
  api_headers :: "(string \<times> string) list"
  utc_offset :: "int \<Rightarrow> int"
  repr_container :: "json \<Rightarrow> string"
  findall_ld_json :: "string \<Rightarrow> string list"
  json_loads :: "string \<Rightarrow> json option"

text \<open>
  The attributes of an \<^verbatim>\<open>Indeed\<close> instance that the methods read or write, followed by
  the two traces of its effects: every request sent with its outcome, and every log
  record. (\<^verbatim>\<open>self.headers\<close> is written by \<^verbatim>\<open>scrape\<close> and never read; \<^verbatim>\<open>jobs_per_page\<close>
  is the constant 100.)
\<close>

record indeed =
  fallback_proxies :: "string option"
  ca_cert :: verify_arg
  scraper_input :: "scraper_input option"
  seen_urls :: "string fset"
  api_country_code :: "string option"
  base_url :: "string option"
  exchanges :: "(request \<times> outcome) list"
  logged :: "(log_level \<times> log_message) list"

definition api_url :: string where
  "api_url = ''https://apis.indeed.com/graphql''"

definition jobs_per_page :: int where
  "jobs_per_page = 100"

subsection \<open>\<^verbatim>\<open>Indeed.__init__\<close>\<close>

datatype proxies_arg = Proxy_None | Proxy_Str string | Proxy_List "string list"

fun fallback_of :: "proxies_arg \<Rightarrow> string option" where
  "fallback_of Proxy_None = None"
| "fallback_of (Proxy_Str p) = (if p \<noteq> [] then Some p else None)"
| "fallback_of (Proxy_List ps) = (case ps of [] \<Rightarrow> None | p # _ \<Rightarrow> Some p)"

definition Indeed_init :: "proxies_arg \<Rightarrow> string option \<Rightarrow> indeed" where
  "Indeed_init proxies_cfg ca =
     \<lparr>fallback_proxies = fallback_of proxies_cfg,
      ca_cert = (case ca of None \<Rightarrow> Verify_False
                 | Some p \<Rightarrow> if p \<noteq> [] then Verify_Path p else Verify_False),
      scraper_input = None,
      seen_urls = {||},
      api_country_code = None,
      base_url = None,
      exchanges = [],
      logged = []\<rparr>"

definition send :: "env \<Rightarrow> request \<Rightarrow> indeed \<Rightarrow> outcome \<times> indeed" where
  "send E rq s =
     (let out = net E (length (exchanges s)) rq
      in (out, s\<lparr>exchanges := exchanges s @ [(rq, out)]\<rparr>))"

definition log_to :: "log_level \<Rightarrow> log_message \<Rightarrow> indeed \<Rightarrow> indeed" where
  "log_to lvl msg s = s\<lparr>logged := logged s @ [(lvl, msg)]\<rparr>"

text \<open>\<^verbatim>\<open>self.scraper_input.x\<close> raises while the attribute is still \<^verbatim>\<open>None\<close>.\<close>

definition input_of :: "indeed \<Rightarrow> error + scraper_input" where
  "input_of s = (case scraper_input s of None \<Rightarrow> Inl AttributeError | Some inp \<Rightarrow> Inr inp)"

subsection \<open>\<^verbatim>\<open>Indeed._fetch_company_name\<close>\<close>

definition browser_headers :: "(string \<times> string option) list" where
  "browser_headers =
     [(''User-Agent'', Some ''Mozilla/5.0 (Windows NT 10.0; Win64; x64) AppleWebKit/537.36 (KHTML, like Gecko) Chrome/120.0.0.0 Safari/537.36''),
      (''Accept-Language'', Some ''de-DE,de;q=0.9,en;q=0.8''),
      (''Accept'', Some ''text/html,application/xhtml+xml,application/xml;q=0.9,*/*;q=0.8'')]"

text \<open>The loop over the JSON-LD blocks: a block that does not parse, or on which \<^verbatim>\<open>.get\<close>
  is not defined, is skipped; the first truthy name is returned.\<close>

fun first_hiring_name :: "json option list \<Rightarrow> json option" where
  "first_hiring_name [] = None"
| "first_hiring_name (None # ms) = first_hiring_name ms"
| "first_hiring_name (Some data # ms) =
     (case bind_err (py_get_default data ''hiringOrganization'' (JObj []))
                    (\<lambda>org. py_get org ''name'') of
        Inr name \<Rightarrow> if truthy name then Some name else first_hiring_name ms
      | Inl AttributeError \<Rightarrow> first_hiring_name ms
      | Inl e \<Rightarrow> None)"

definition company_name_in :: "env \<Rightarrow> string \<Rightarrow> response \<Rightarrow> indeed \<Rightarrow> json \<times> indeed" where
  "company_name_in E job_url r s =
     (if \<not> ok r then (JNull, log_to WARNING (Http_status_for (status_code r) job_url) s)
      else case first_hiring_name (map (json_loads E) (findall_ld_json E (body_text r))) of
             Some name \<Rightarrow> (name, s)
           | None \<Rightarrow> (JNull, log_to WARNING (No_hiring_organization job_url) s))"

text \<open>The two requests of the method: \<^verbatim>\<open>self.html_session.get(job_url, headers=headers)\<close>
  and \<^verbatim>\<open>req_lib.get(job_url, headers=headers, proxies=self._fallback_proxies, timeout=10,
  verify=self._ca_cert)\<close>.\<close>

definition browser_get :: "string \<Rightarrow> request" where
  "browser_get job_url =
     \<lparr>channel = html_session, http_method = GET, url = job_url, headers = browser_headers,
      query = None, proxies = None, timeout = None, verify = None\<rparr>"

definition proxied_get :: "string \<Rightarrow> indeed \<Rightarrow> request" where
  "proxied_get job_url s =
     \<lparr>channel = req_lib, http_method = GET, url = job_url, headers = browser_headers,
      query = None, proxies = fallback_proxies s, timeout = Some 10,
      verify = Some (ca_cert s)\<rparr>"

text \<open>The whole body is inside \<^verbatim>\<open>try: ... except Exception\<close>: a request that raises ends
  the method with \<^verbatim>\<open>None\<close>, so the method itself never raises.\<close>

definition fetch_company_name :: "env \<Rightarrow> string \<Rightarrow> indeed \<Rightarrow> json \<times> indeed" where
  "fetch_company_name E job_url s =
     (case send E (browser_get job_url) s of
        (Raises, s1) \<Rightarrow> (JNull, log_to WARNING (Exception_for job_url) s1)
      | (Returns r1, s1) \<Rightarrow>
          if \<not> ok r1 \<and> fallback_proxies s1 \<noteq> None then
            (case send E (proxied_get job_url s1)
                        (log_to INFO (Tls_retrying_with_proxy (status_code r1) job_url) s1) of
               (Raises, s2) \<Rightarrow> (JNull, log_to WARNING (Exception_for job_url) s2)
             | (Returns r2, s2) \<Rightarrow> company_name_in E job_url r2 s2)
          else company_name_in E job_url r1 s1)"

section \<open>\<^verbatim>\<open>Indeed._process_job\<close>\<close>

text \<open>
  Modelled from the spec: \<^verbatim>\<open>JobPost\<close> and \<^verbatim>\<open>Location\<close> are declared in \<^verbatim>\<open>jobspy.model\<close>,
  which is not among the sources; the spec takes them as an opaque structure with named
  fields, so construction stores the arguments and does not fail. The fields are the
  keyword arguments of the two constructor calls; \<open>post_id\<close>, \<open>post_location\<close>,
  \<open>post_job_type\<close>, \<open>post_is_remote\<close> and \<open>loc_country\<close> stand for \<^verbatim>\<open>id\<close>, \<^verbatim>\<open>location\<close>,
  \<^verbatim>\<open>job_type\<close>, \<^verbatim>\<open>is_remote\<close> and \<^verbatim>\<open>country\<close>.
\<close>

record Location =
  city :: json
  state :: json
  loc_country :: json

record JobPost =
  post_id :: string
  title :: json
  description :: json
  company_name :: json
  company_url :: "string option"
  company_url_direct :: json
  post_location :: Location
  post_job_type :: json
  compensation :: json
  date_posted :: string
  job_url :: string
  job_url_direct :: json
  emails :: json
  post_is_remote :: json
  company_addresses :: json
  company_industry :: json
  company_num_employees :: json
  company_revenue :: json
  company_description :: json
  company_logo :: json

text \<open>\<^verbatim>\<open>f'{self.base_url}/viewjob?jk={job["key"]}'\<close>.\<close>

definition viewjob_url :: "env \<Rightarrow> indeed \<Rightarrow> json \<Rightarrow> string" where
  "viewjob_url E s key = fmt_opt (base_url s) @ ''/viewjob?jk='' @ py_str (repr_container E) key"

text \<open>The values computed between the insertion into \<^verbatim>\<open>seen_urls\<close> and the company-name
  fallback (source lines 264 to 274), in the order the code evaluates them.\<close>

record job_locals =
  l_description :: json
  l_job_type :: json
  l_date_posted :: string
  l_employer :: json
  l_employer_details :: json
  l_rel_url :: json
  l_company_name :: json

definition job_locals_of :: "env \<Rightarrow> indeed \<Rightarrow> json \<Rightarrow> error + job_locals" where
  "job_locals_of E s job =
     bind_err (subscr job ''description'') (\<lambda>d.
     bind_err (subscr d ''html'') (\<lambda>html.
     bind_err (input_of s) (\<lambda>inp.
     bind_err (if description_format inp = MARKDOWN then markdown_converter E html
               else Inr html) (\<lambda>descr.
     bind_err (subscr job ''attributes'') (\<lambda>attrs.
     bind_err (get_job_type E attrs) (\<lambda>jt.
     bind_err (subscr job ''datePublished'') (\<lambda>published.
     bind_err (date_posted_of (utc_offset E) published) (\<lambda>posted.
     bind_err (subscr job ''employer'') (\<lambda>emp.
     bind_err (if truthy emp then py_get emp ''dossier'' else Inr JNull) (\<lambda>employer.
     bind_err (if truthy employer then py_get_default employer ''employerDetails'' (JObj [])
               else Inr (JObj [])) (\<lambda>details.
     bind_err (if truthy emp then subscr emp ''relativeCompanyPageUrl'' else Inr JNull) (\<lambda>rel.
     bind_err (py_get job ''employer'') (\<lambda>emp'.
     bind_err (if truthy emp' then py_get emp ''name'' else Inr JNull) (\<lambda>name.
     Inr \<lparr>l_description = descr, l_job_type = jt, l_date_posted = posted,
          l_employer = employer, l_employer_details = details, l_rel_url = rel,
          l_company_name = name\<rparr>))))))))))))))"

text \<open>\<^verbatim>\<open>employer_details["industry"].replace("Iv1", "").replace("_", " ").title().strip()\<close>:
  these are methods of strings only.\<close>

fun industry_label :: "json \<Rightarrow> error + json" where
  "industry_label (JStr s) =
     Inr (JStr (str_strip (str_title (str_replace ''_'' '' '' (str_replace ''Iv1'' [] s)))))"
| "industry_label v = Inl AttributeError"

text \<open>The constructor call (source lines 277 to 322): the keyword arguments are
  evaluated from top to bottom, and the first one that raises ends the call.\<close>

definition job_post_of ::
  "env \<Rightarrow> indeed \<Rightarrow> json \<Rightarrow> string \<Rightarrow> job_locals \<Rightarrow> json \<Rightarrow> error + JobPost" where
  "job_post_of E s job jurl L name =
     bind_err (subscr job ''key'') (\<lambda>key.
     bind_err (subscr job ''title'') (\<lambda>ttl.
     bind_err (subscr job ''employer'') (\<lambda>emp.
     bind_err (if truthy (l_employer L)
               then bind_err (subscr (l_employer L) ''links'')
                      (\<lambda>links. subscr links ''corporateWebsite'')
               else Inr JNull) (\<lambda>direct.
     bind_err (bind_err (py_get_default job ''location'' (JObj [])) (\<lambda>l. py_get l ''city'')) (\<lambda>cty.
     bind_err (bind_err (py_get_default job ''location'' (JObj []))
                 (\<lambda>l. py_get l ''admin1Code'')) (\<lambda>st.
     bind_err (bind_err (py_get_default job ''location'' (JObj []))
                 (\<lambda>l. py_get l ''countryCode'')) (\<lambda>ctry.
     bind_err (subscr job ''compensation'') (\<lambda>comp_raw.
     bind_err (get_compensation E comp_raw) (\<lambda>comp.
     bind_err (py_get job ''recruit'') (\<lambda>rec.
     bind_err (if truthy rec then py_get rec ''viewJobUrl'' else Inr JNull) (\<lambda>view_url.
     bind_err (if truthy (l_description L) then extract_emails_from_text E (l_description L)
               else Inr JNull) (\<lambda>mails.
     bind_err (is_job_remote E job (l_description L)) (\<lambda>remote.
     bind_err (py_get (l_employer_details L) ''addresses'') (\<lambda>addrs.
     bind_err (if truthy addrs then subscr0 addrs else Inr JNull) (\<lambda>address.
     bind_err (py_get (l_employer_details L) ''industry'') (\<lambda>ind.
     bind_err (if truthy ind then industry_label ind else Inr JNull) (\<lambda>industry.
     bind_err (py_get (l_employer_details L) ''employeesLocalizedLabel'') (\<lambda>employees.
     bind_err (py_get (l_employer_details L) ''revenueLocalizedLabel'') (\<lambda>revenue.
     bind_err (py_get (l_employer_details L) ''briefDescription'') (\<lambda>brief.
     bind_err (if truthy (l_employer L)
               then bind_err (py_get (l_employer L) ''images'')
                      (\<lambda>images. if truthy images then py_get images ''squareLogoUrl''
                                 else Inr JNull)
               else Inr JNull) (\<lambda>logo.
     Inr \<lparr>post_id = ''in-'' @ py_str (repr_container E) key,
          title = ttl,
          description = l_description L,
          company_name = name,
          company_url = (if truthy emp
                         then Some (fmt_opt (base_url s) @ py_str (repr_container E) (l_rel_url L))
                         else None),
          company_url_direct = direct,
          post_location = \<lparr>city = cty, state = st, loc_country = ctry\<rparr>,
          post_job_type = l_job_type L,
          compensation = comp,
          date_posted = l_date_posted L,
          job_url = jurl,
          job_url_direct = view_url,
          emails = mails,
          post_is_remote = remote,
          company_addresses = address,
          company_industry = industry,
          company_num_employees = employees,
          company_revenue = revenue,
          company_description = brief,
          company_logo = logo\<rparr>)))))))))))))))))))))"

text \<open>\<^verbatim>\<open>if not company_name: company_name = self._fetch_company_name(job_url)\<close>.\<close>

definition resolve_company_name ::
  "env \<Rightarrow> string \<Rightarrow> job_locals \<Rightarrow> indeed \<Rightarrow> json \<times> indeed" where
  "resolve_company_name E jurl L s =
     (if \<not> truthy (l_company_name L) then fetch_company_name E jurl s
      else (l_company_name L, s))"

text \<open>The method itself. The result is \<open>None\<close> for a record whose URL was already seen.
  The state is returned beside the result, also when the result is an exception: what
  the call did to \<^verbatim>\<open>self.seen_urls\<close> and to the network before raising stays done.\<close>

definition process_job :: "env \<Rightarrow> json \<Rightarrow> indeed \<Rightarrow> (error + JobPost option) \<times> indeed" where
  "process_job E job s =
     (case subscr job ''key'' of
        Inl e \<Rightarrow> (Inl e, s)
      | Inr key \<Rightarrow>
          (let jurl = viewjob_url E s key in
           if jurl |\<in>| seen_urls s then (Inr None, s)
           else
             (let s1 = s\<lparr>seen_urls := finsert jurl (seen_urls s)\<rparr> in
              (case job_locals_of E s1 job of
                 Inl e \<Rightarrow> (Inl e, s1)
               | Inr L \<Rightarrow>
                   (let named = resolve_company_name E jurl L s1;
                        s2 = snd named
                    in (case job_post_of E s2 job jurl L (fst named) of
                          Inl e \<Rightarrow> (Inl e, s2)
                        | Inr p \<Rightarrow> (Inr (Some p), s2)))))))"

section \<open>\<^verbatim>\<open>Indeed._scrape_page\<close> and \<^verbatim>\<open>Indeed.scrape\<close>\<close>

text \<open>The \<^verbatim>\<open>for job in jobs\<close> loop of \<^verbatim>\<open>_scrape_page\<close>: the postings of the records that
  were not skipped, in the order of the records.\<close>

fun process_jobs :: "env \<Rightarrow> json list \<Rightarrow> indeed \<Rightarrow> (error + JobPost list) \<times> indeed" where
  "process_jobs E [] s = (Inr [], s)"
| "process_jobs E (item # items) s =
     (case subscr item ''job'' of
        Inl e \<Rightarrow> (Inl e, s)
      | Inr job \<Rightarrow>
          (let first = process_job E job s in
           (case fst first of
              Inl e \<Rightarrow> (Inl e, snd first)
            | Inr processed_job \<Rightarrow>
                (let rest = process_jobs E items (snd first) in
                 (case fst rest of
                    Inl e \<Rightarrow> (Inl e, snd rest)
                  | Inr job_list \<Rightarrow>
                      (Inr ((case processed_job of None \<Rightarrow> [] | Some p \<Rightarrow> [p]) @ job_list),
                       snd rest))))))"

text \<open>\<^verbatim>\<open>data["data"]["jobSearch"]["results"]\<close> and
  \<^verbatim>\<open>data["data"]["jobSearch"]["pageInfo"]["nextCursor"]\<close> of the parsed body.\<close>

definition page_of_body :: "env \<Rightarrow> response \<Rightarrow> error + json \<times> json" where
  "page_of_body E r =
     (case json_loads E (body_text r) of
        None \<Rightarrow> Inl JSONDecodeError
      | Some data \<Rightarrow>
          bind_err (subscr data ''data'') (\<lambda>d1.
          bind_err (subscr d1 ''jobSearch'') (\<lambda>js1.
          bind_err (subscr js1 ''results'') (\<lambda>jobs.
          bind_err (subscr data ''data'') (\<lambda>d2.
          bind_err (subscr d2 ''jobSearch'') (\<lambda>js2.
          bind_err (subscr js2 ''pageInfo'') (\<lambda>info.
          bind_err (subscr info ''nextCursor'') (\<lambda>new_cursor.
          Inr (jobs, new_cursor)))))))))"

definition api_request :: "env \<Rightarrow> scraper_input \<Rightarrow> json \<Rightarrow> indeed \<Rightarrow> request" where
  \<open>api_request E inp cursor s =
     (let filters = build_filters inp;
          term = (case search_term inp of
                    None \<Rightarrow> []
                  | Some t \<Rightarrow> if t \<noteq> [] then str_replace [CHR 0x22] [CHR 0x5C, CHR 0x22] t else [])
      in \<lparr>channel = session, http_method = POST, url = api_url,
          headers = dict_set ''indeed-co'' (api_country_code s)
                      (map (\<lambda>kv. (fst kv, Some (snd kv))) (api_headers E)),
          query = Some (job_search_query E
                    (if term \<noteq> [] then ''what: "'' @ term @ ''"'' else [])
                    (case location inp of
                       None \<Rightarrow> []
                     | Some l \<Rightarrow>
                         if l \<noteq> []
                         then ''location: {where: "'' @ l @ ''", radius: ''
                              @ fmt_int_opt (distance inp) @ '', radiusUnit: MILES}''
                         else [])
                    (hours_old inp)
                    (if truthy cursor
                     then ''cursor: "'' @ py_str (repr_container E) cursor @ ''"'' else [])
                    filters),
          proxies = None, timeout = Some 10, verify = Some Verify_False\<rparr>)\<close>

definition scrape_page ::
  "env \<Rightarrow> json \<Rightarrow> indeed \<Rightarrow> (error + JobPost list \<times> json) \<times> indeed" where
  "scrape_page E cursor s =
     (case input_of s of
        Inl e \<Rightarrow> (Inl e, s)
      | Inr inp \<Rightarrow>
          (let sent = send E (api_request E inp cursor s) s;
               s1 = snd sent
           in (case fst sent of
                 Raises \<Rightarrow> (Inl TransportError, s1)
               | Returns r \<Rightarrow>
                   if \<not> ok r
                   then (Inr ([], JNull),
                         log_to INFO (Responded_with_status (status_code r)) s1)
                   else
                     (case bind_err (page_of_body E r)
                             (\<lambda>page. bind_err (py_iter (fst page))
                                        (\<lambda>items. Inr (items, snd page))) of
                        Inl e \<Rightarrow> (Inl e, s1)
                      | Inr page \<Rightarrow>
                          (let processed = process_jobs E (fst page) s1 in
                           (case fst processed of
                              Inl e \<Rightarrow> (Inl e, snd processed)
                            | Inr job_list \<Rightarrow>
                                (Inr (job_list, snd page), snd processed)))))))"

text \<open>\<^verbatim>\<open>math.ceil(results_wanted / self.jobs_per_page)\<close>, shown in the log line.\<close>

definition page_count :: "int \<Rightarrow> int" where
  "page_count wanted = - ((- wanted) div jobs_per_page)"

text \<open>The \<^verbatim>\<open>while\<close> loop of \<^verbatim>\<open>scrape\<close>, with its local variables \<^verbatim>\<open>job_list\<close>, \<^verbatim>\<open>page\<close>
  and \<^verbatim>\<open>cursor\<close>. A page that is not empty adds at least one URL to \<^verbatim>\<open>seen_urls\<close>, so
  the distance to the target shrinks with every turn and the loop ends.\<close>

function scrape_loop ::
  "env \<Rightarrow> scraper_input \<Rightarrow> JobPost list \<Rightarrow> int \<Rightarrow> json \<Rightarrow> indeed
     \<Rightarrow> (error + JobPost list) \<times> indeed" where
  "scrape_loop E inp job_list page cursor s =
     (if int (fcard (seen_urls s)) < results_wanted inp + offset inp then
        let fetched = scrape_page E cursor
                        (log_to INFO (Search_page page (page_count (results_wanted inp))) s);
            s1 = snd fetched
        in (case fst fetched of
              Inl e \<Rightarrow> (Inl e, s1)
            | Inr got \<Rightarrow>
                if fst got = [] then (Inr job_list, log_to INFO (Found_no_jobs page) s1)
                else scrape_loop E inp (job_list @ fst got) (page + 1) (snd got) s1)
      else (Inr job_list, s))"
  by pat_completeness auto
termination
proof (relation "measure (\<lambda>(E, inp, job_list, page, cursor, s).
                   nat (results_wanted inp + offset inp - int (fcard (seen_urls s))))")
  show "wf (measure (\<lambda>(E, inp, job_list, page, cursor, s).
                   nat (results_wanted inp + offset inp - int (fcard (seen_urls s)))))"
    by simp
next
  fix E :: env and inp :: scraper_input and job_list :: "JobPost list" and page :: int
    and cursor :: json and s :: indeed and fetched s1 got
  assume running: "int (fcard (seen_urls s)) < results_wanted inp + offset inp"
    and fetched: "fetched = scrape_page E cursor
                    (log_to INFO (Search_page page (page_count (results_wanted inp))) s)"
    and s1: "s1 = snd fetched"
    and got: "fst fetched = Inr got"
    and some: "fst got \<noteq> []"
  have name: "seen_urls (snd (resolve_company_name E u L t)) = seen_urls t" for u L t
    by (simp add: resolve_company_name_def fetch_company_name_def send_def Let_def log_to_def
          company_name_in_def split: outcome.split option.split)
  have one: "fcard (seen_urls (snd (process_job E job t)))
               = fcard (seen_urls t) + length (case r of None \<Rightarrow> [] | Some p \<Rightarrow> [p])"
    if "fst (process_job E job t) = Inr r" for job t r
    using that
    by (auto simp: process_job_def Let_def name fcard_finsert_disjoint
        split: sum.splits if_splits)
  have many: "fcard (seen_urls (snd (process_jobs E items t))) = fcard (seen_urls t) + length jl"
    if "fst (process_jobs E items t) = Inr jl" for items t jl
    using that
  proof (induction items arbitrary: t jl)
    case Nil
    then show ?case by simp
  next
    case (Cons item items)
    then show ?case by (auto simp: Let_def one split: sum.splits)
  qed
  have page: "fcard (seen_urls (snd (scrape_page E c t))) = fcard (seen_urls t) + length (fst pg)"
    if "fst (scrape_page E c t) = Inr pg" for c t pg
    using that
    by (auto simp: scrape_page_def Let_def send_def log_to_def many
        split: sum.splits outcome.splits if_splits)
  have "fcard (seen_urls s1) = fcard (seen_urls s) + length (fst got)"
    using page [of cursor _ got] got fetched s1 by (simp add: log_to_def)
  with some have "fcard (seen_urls s) < fcard (seen_urls s1)" by simp
  with running show "((E, inp, job_list @ fst got, page + 1, snd got, s1),
          E, inp, job_list, page, cursor, s)
       \<in> measure (\<lambda>(E, inp, job_list, page, cursor, s).
                   nat (results_wanted inp + offset inp - int (fcard (seen_urls s))))"
    by simp
qed

declare scrape_loop.simps [simp del]

text \<open>The assignments at the head of \<^verbatim>\<open>scrape\<close>; \<^verbatim>\<open>seen_urls\<close> is not among them.\<close>

definition begin_scrape :: "scraper_input \<Rightarrow> indeed \<Rightarrow> indeed" where
  "begin_scrape inp s =
     s\<lparr>scraper_input := Some inp,
       api_country_code := Some (snd (country inp)),
       base_url := Some (''https://'' @ fst (country inp) @ ''.indeed.com'')\<rparr>"

definition scrape :: "env \<Rightarrow> scraper_input \<Rightarrow> indeed \<Rightarrow> (error + JobPost list) \<times> indeed" where
  "scrape E inp s =
     (let looped = scrape_loop E inp [] 1 JNull (begin_scrape inp s)
      in (case fst looped of
            Inl e \<Rightarrow> (Inl e, snd looped)
          | Inr job_list \<Rightarrow>
              (Inr (py_slice job_list (offset inp) (offset inp + results_wanted inp)),
               snd looped)))"

section \<open>Notions used to state the properties\<close>

text \<open>An exchange on the API channel, as opposed to a company-name lookup.\<close>

definition is_api :: "request \<times> outcome \<Rightarrow> bool" where
  "is_api x = (channel (fst x) = session)"

text \<open>What arrived from the provider: the elements of the result list of one API
  exchange (none when the request raised, the response was not ok or the body has no
  list), and the canonical URL of an element (with \<open>base\<close> the scraper's \<^verbatim>\<open>base_url\<close>).\<close>

definition page_items :: "env \<Rightarrow> request \<times> outcome \<Rightarrow> json list" where
  "page_items E x =
     (case snd x of
        Raises \<Rightarrow> []
      | Returns r \<Rightarrow>
          if ok r
          then (case bind_err (page_of_body E r) (\<lambda>page. py_iter (fst page)) of
                  Inl e \<Rightarrow> []
                | Inr items \<Rightarrow> items)
          else [])"

definition item_url :: "env \<Rightarrow> string option \<Rightarrow> json \<Rightarrow> string option" where
  "item_url E base item =
     (case bind_err (subscr item ''job'') (\<lambda>job. subscr job ''key'') of
        Inl e \<Rightarrow> None
      | Inr key \<Rightarrow> Some (fmt_opt base @ ''/viewjob?jk='' @ py_str (repr_container E) key))"

definition arrived_urls :: "env \<Rightarrow> string option \<Rightarrow> (request \<times> outcome) list \<Rightarrow> string list" where
  "arrived_urls E base xs = concat (map (\<lambda>x. List.map_filter (item_url E base) (page_items E x)) xs)"

text \<open>The first occurrences, in order, of the URLs that are not in \<open>S\<close>: the accumulated
  unique postings of the spec, by URL.\<close>

fun first_seen :: "string fset \<Rightarrow> string list \<Rightarrow> string list" where
  "first_seen S [] = []"
| "first_seen S (u # us) =
     (if u |\<in>| S then first_seen S us else u # first_seen (finsert u S) us)"

section \<open>Concrete inputs\<close>

text \<open>Search criteria, a raw record, a response body and an environment with trivial
  helpers, used to run the model on examples.\<close>

definition crit0 :: scraper_input where
  "crit0 = \<lparr>search_term = None, location = None, distance = None, hours_old = Some 0,
     job_type = None, is_remote = False, easy_apply = True, results_wanted = 15, offset = 0,
     description_format = MARKDOWN, country = (''www'', ''US'')\<rparr>"

definition crit1 :: scraper_input where
  "crit1 = \<lparr>search_term = Some ''dev'', location = None, distance = Some 50, hours_old = None,
     job_type = None, is_remote = False, easy_apply = False, results_wanted = 1, offset = 0,
     description_format = MARKDOWN, country = (''www'', ''US'')\<rparr>"

definition raw_job :: "string \<Rightarrow> json \<Rightarrow> json" where
  "raw_job k employer =
     JObj [(''key'', JStr k), (''title'', JStr ''Engineer''),
           (''description'', JObj [(''html'', JStr ''text'')]), (''attributes'', JArr []),
           (''datePublished'', JInt 1700000000000), (''employer'', employer),
           (''compensation'', JNull), (''recruit'', JNull)]"

definition acme :: json where
  "acme = JObj [(''name'', JStr ''Acme''), (''relativeCompanyPageUrl'', JStr ''/cmp/acme'')]"

definition page_json :: "string list \<Rightarrow> json \<Rightarrow> json" where
  "page_json ks c =
     JObj [(''data'', JObj [(''jobSearch'',
       JObj [(''results'', JArr (map (\<lambda>k. JObj [(''job'', raw_job k acme)]) ks)),
             (''pageInfo'', JObj [(''nextCursor'', c)])])])]"

definition plain_env :: "(nat \<Rightarrow> request \<Rightarrow> outcome) \<Rightarrow> (string \<Rightarrow> json option) \<Rightarrow> env" where
  "plain_env world parse =
     \<lparr>net = world,
      markdown_converter = Inr, get_job_type = (\<lambda>v. Inr JNull),
      get_compensation = (\<lambda>v. Inr JNull), is_job_remote = (\<lambda>j d. Inr (JBool False)),
      extract_emails_from_text = (\<lambda>v. Inr JNull),
      job_search_query = (\<lambda>what loc hours cur filters. what @ loc @ cur @ filters),
      api_headers = [], utc_offset = (\<lambda>t. 0), repr_container = (\<lambda>v. []),
      findall_ld_json = (\<lambda>t. []), json_loads = parse\<rparr>"

definition answer :: "bool \<Rightarrow> int \<Rightarrow> string \<Rightarrow> outcome" where
  "answer good code body = Returns \<lparr>ok = good, status_code = code, body_text = body\<rparr>"

text \<open>A provider with one page holding the record \<open>a\<close>, and a scraper at the start of a
  session on \<open>crit1\<close>.\<close>

definition one_page_env :: env where
  "one_page_env = plain_env (\<lambda>n rq. answer True 200 ''P'')
                    (\<lambda>t. if t = ''P'' then Some (page_json [''a''] JNull) else None)"

definition fresh :: indeed where
  "fresh = begin_scrape crit1 (Indeed_init Proxy_None None)"

text \<open>A record with every nested object absent, the way a GraphQL response reports it:
  the field is there and holds \<^verbatim>\<open>null\<close>.\<close>

definition sparse_job :: json where
  "sparse_job =
     JObj [(''key'', JStr ''a''), (''title'', JStr ''Engineer''),
           (''description'', JObj [(''html'', JStr ''text'')]), (''attributes'', JArr []),
           (''datePublished'', JInt 1700000000000), (''employer'', JNull),
           (''compensation'', JNull), (''recruit'', JNull), (''location'', JNull)]"

text \<open>A scraper with a proxy and no CA bundle; a network whose every request raises, and
  one that answers 403 to every request.\<close>

definition proxied :: indeed where
  "proxied = begin_scrape crit1 (Indeed_init (Proxy_Str ''http://proxy:8080'') None)"

definition down_env :: env where
  "down_env = plain_env (\<lambda>n rq. Raises) (\<lambda>t. None)"

definition blocked_env :: env where
  "blocked_env = plain_env (\<lambda>n rq. answer False 403 []) (\<lambda>t. None)"

text \<open>A provider with three pages: records \<open>a\<close>, \<open>b\<close>, \<open>a\<close>, then \<open>b\<close>, \<open>c\<close>, then
  none; and criteria asking for two results after skipping one.\<close>

definition three_page_env :: env where
  "three_page_env =
     plain_env (\<lambda>n rq. answer True 200 (if n = 0 then ''P1'' else if n = 1 then ''P2'' else ''P3''))
       (\<lambda>t. if t = ''P1'' then Some (page_json [''a'', ''b'', ''a''] (JStr ''c1''))
            else if t = ''P2'' then Some (page_json [''b'', ''c''] (JStr ''c2''))
            else if t = ''P3'' then Some (page_json [] JNull) else None)"

definition crit2 :: scraper_input where
  "crit2 = crit1\<lparr>results_wanted := 2, offset := 1\<rparr>"

definition new_scraper :: indeed where
  "new_scraper = Indeed_init Proxy_None None"


text \<open>The scraper after one call of \<^verbatim>\<open>scrape\<close> against the one-page provider.\<close>

definition used_scraper :: indeed where
  "used_scraper = snd (scrape one_page_env crit1 new_scraper)"

section \<open>Basic facts about the model\<close>

lemma bind_err_InrE:
  assumes "bind_err m f = Inr y"
  obtains x where "m = Inr x" and "f x = Inr y"
  using assms by (cases m) (simp_all add: bind_err_def)

lemma send_eq:
  "send E rq s = (net E (length (exchanges s)) rq,
                  s\<lparr>exchanges := exchanges s @ [(rq, net E (length (exchanges s)) rq)]\<rparr>)"
  by (simp add: send_def Let_def)

lemmas fetch_defs = fetch_company_name_def send_eq log_to_def company_name_in_def

lemma fetch_seen [simp]: "seen_urls (snd (fetch_company_name E u s)) = seen_urls s"
  by (simp add: fetch_defs split: outcome.split option.split)

lemma fetch_base_url [simp]: "base_url (snd (fetch_company_name E u s)) = base_url s"
  by (simp add: fetch_defs split: outcome.split option.split)

lemma fetch_scraper_input [simp]:
  "scraper_input (snd (fetch_company_name E u s)) = scraper_input s"
  by (simp add: fetch_defs split: outcome.split option.split)

lemma fetch_api [simp]:
  "filter is_api (exchanges (snd (fetch_company_name E u s))) = filter is_api (exchanges s)"
  by (simp add: fetch_defs is_api_def browser_get_def proxied_get_def
      split: outcome.split option.split)

lemma resolve_seen [simp]: "seen_urls (snd (resolve_company_name E u L s)) = seen_urls s"
  by (simp add: resolve_company_name_def)

lemma resolve_base_url [simp]: "base_url (snd (resolve_company_name E u L s)) = base_url s"
  by (simp add: resolve_company_name_def)

lemma resolve_scraper_input [simp]:
  "scraper_input (snd (resolve_company_name E u L s)) = scraper_input s"
  by (simp add: resolve_company_name_def)

lemma resolve_api [simp]:
  "filter is_api (exchanges (snd (resolve_company_name E u L s))) = filter is_api (exchanges s)"
  by (simp add: resolve_company_name_def)

lemma job_post_of_url: "job_post_of E s job u L n = Inr p \<Longrightarrow> job_url p = u"
  unfolding job_post_of_def by (elim bind_err_InrE) auto



lemma process_job_seen:
  "seen_urls (snd (process_job E job s)) =
     (case subscr job ''key'' of Inl e \<Rightarrow> seen_urls s
      | Inr k \<Rightarrow> finsert (viewjob_url E s k) (seen_urls s))"
  by (simp add: process_job_def Let_def finsert_absorb split: sum.split)

lemma process_job_base_url [simp]: "base_url (snd (process_job E job s)) = base_url s"
  by (simp add: process_job_def Let_def split: sum.split)

lemma process_job_scraper_input [simp]:
  "scraper_input (snd (process_job E job s)) = scraper_input s"
  by (simp add: process_job_def Let_def split: sum.split)

lemma process_job_api [simp]:
  "filter is_api (exchanges (snd (process_job E job s))) = filter is_api (exchanges s)"
  by (simp add: process_job_def Let_def split: sum.split)

lemma process_job_result:
  assumes "process_job E job s = (Inr r, s')"
  obtains k where "subscr job ''key'' = Inr k"
    and "r = None \<longleftrightarrow> viewjob_url E s k |\<in>| seen_urls s"
    and "\<And>p. r = Some p \<Longrightarrow> job_url p = viewjob_url E s k"
  using assms
  by (auto simp: process_job_def Let_def split: sum.splits if_splits dest: job_post_of_url)

lemma fetch_exchanges:
  "exchanges (snd (fetch_company_name E u s))
     = exchanges s @ (browser_get u, net E (length (exchanges s)) (browser_get u))
       # (case net E (length (exchanges s)) (browser_get u) of
            Raises \<Rightarrow> []
          | Returns r \<Rightarrow>
              if \<not> ok r \<and> fallback_proxies s \<noteq> None
              then [(proxied_get u s, net E (Suc (length (exchanges s))) (proxied_get u s))]
              else [])"
  by (simp add: fetch_defs proxied_get_def split: outcome.split option.split)

section \<open>Pages and the pagination loop\<close>

lemma first_seen_append:
  "first_seen S (xs @ ys) = first_seen S xs @ first_seen (S |\<union>| fset_of_list xs) ys"
proof (induction xs arbitrary: S)
  case (Cons a xs)
  show ?case
  proof (cases "a |\<in>| S")
    case True
    then have "finsert a (S |\<union>| fset_of_list xs) = S |\<union>| fset_of_list xs" by auto
    with True Cons [of S] show ?thesis by simp
  next
    case False
    with Cons [of "finsert a S"] show ?thesis by simp
  qed
qed simp

lemma first_seen_fresh: "set (first_seen S xs) \<inter> fset S = {}"
  by (induction xs arbitrary: S) auto

lemma first_seen_distinct: "distinct (first_seen S xs)"
proof (induction xs arbitrary: S)
  case (Cons u us)
  show ?case using Cons [of S] Cons [of "finsert u S"] first_seen_fresh [of "finsert u S" us]
    by auto
qed simp

lemma item_url_job:
  "subscr item ''job'' = Inr job \<Longrightarrow> subscr job ''key'' = Inr k
   \<Longrightarrow> item_url E (base_url s) item = Some (viewjob_url E s k)"
  by (simp add: item_url_def bind_err_def viewjob_url_def)

lemma process_jobs_base_url [simp]: "base_url (snd (process_jobs E items s)) = base_url s"
  by (induction items arbitrary: s) (auto simp: Let_def split: sum.split)

lemma process_jobs_scraper_input [simp]:
  "scraper_input (snd (process_jobs E items s)) = scraper_input s"
  by (induction items arbitrary: s) (auto simp: Let_def split: sum.split)

lemma process_jobs_api [simp]:
  "filter is_api (exchanges (snd (process_jobs E items s))) = filter is_api (exchanges s)"
  by (induction items arbitrary: s) (auto simp: Let_def split: sum.split)

lemma process_jobs_mono: "seen_urls s |\<subseteq>| seen_urls (snd (process_jobs E items s))"
proof (induction items arbitrary: s)
  case (Cons item items)
  have "seen_urls s |\<subseteq>| seen_urls (snd (process_job E job s))" for job
    by (auto simp: process_job_seen split: sum.split)
  with Cons show ?case
    by (auto simp: Let_def split: sum.split)
qed simp

lemma process_jobs_urls:
  assumes "fst (process_jobs E items s) = Inr jl"
  shows "map job_url jl
           = first_seen (seen_urls s) (List.map_filter (item_url E (base_url s)) items)
       \<and> seen_urls (snd (process_jobs E items s))
           = seen_urls s |\<union>| fset_of_list (List.map_filter (item_url E (base_url s)) items)"
  using assms
proof (induction items arbitrary: s jl)
  case Nil
  then show ?case by (simp add: List.map_filter_simps)
next
  case (Cons item items)
  from Cons.prems obtain job where job: "subscr item ''job'' = Inr job"
    by (cases "subscr item ''job''") auto
  obtain r0 s1 where pj0: "process_job E job s = (r0, s1)" by (cases "process_job E job s") auto
  with Cons.prems job obtain r where r: "r0 = Inr r" by (cases r0) (auto simp: Let_def)
  note pj = pj0 [unfolded r]
  from Cons.prems job pj obtain rest where
    rest: "fst (process_jobs E items s1) = Inr rest"
    and jl: "jl = (case r of None \<Rightarrow> [] | Some p \<Rightarrow> [p]) @ rest"
    by (cases "fst (process_jobs E items s1)") (auto simp: Let_def)
  have final: "snd (process_jobs E (item # items) s) = snd (process_jobs E items s1)"
    using job pj rest by (simp add: Let_def)
  from process_job_result [OF pj] obtain k where
    k: "subscr job ''key'' = Inr k"
    and none: "r = None \<longleftrightarrow> viewjob_url E s k |\<in>| seen_urls s"
    and some: "\<And>p. r = Some p \<Longrightarrow> job_url p = viewjob_url E s k"
    by blast
  let ?u = "viewjob_url E s k"
  have iu: "item_url E (base_url s) item = Some ?u" using job k by (rule item_url_job)
  have s1: "seen_urls s1 = finsert ?u (seen_urls s)"
    using process_job_seen [of E job s] pj k by simp
  have b1: "base_url s1 = base_url s" using process_job_base_url [of E job s] pj by simp
  note IH = Cons.IH [OF rest, unfolded b1 s1]
  let ?us = "List.map_filter (item_url E (base_url s)) items"
  have mf: "List.map_filter (item_url E (base_url s)) (item # items) = ?u # ?us"
    using iu by (simp add: List.map_filter_simps)
  have "seen_urls (snd (process_jobs E (item # items) s))
          = finsert ?u (seen_urls s) |\<union>| fset_of_list ?us"
    using IH final by (simp only:)
  also have "\<dots> = seen_urls s |\<union>| fset_of_list (?u # ?us)" by auto
  finally have seen: "seen_urls (snd (process_jobs E (item # items) s))
          = seen_urls s |\<union>| fset_of_list (List.map_filter (item_url E (base_url s)) (item # items))"
    by (simp only: mf)
  have urls: "map job_url jl = first_seen (seen_urls s) (?u # ?us)"
  proof (cases r)
    case None
    with none have "finsert ?u (seen_urls s) = seen_urls s" by auto
    with IH None none jl show ?thesis by simp
  next
    case (Some p)
    with none have "?u |\<notin>| seen_urls s" by auto
    with IH Some some [OF Some] jl show ?thesis by simp
  qed
  from urls seen show ?case by (simp only: mf)
qed

lemma scrape_page_base_url [simp]: "base_url (snd (scrape_page E c s)) = base_url s"
  by (simp add: scrape_page_def send_eq log_to_def Let_def split: sum.split outcome.split)

lemma scrape_page_scraper_input [simp]:
  "scraper_input (snd (scrape_page E c s)) = scraper_input s"
  by (simp add: scrape_page_def send_eq log_to_def Let_def split: sum.split outcome.split)

lemma scrape_page_mono: "seen_urls s |\<subseteq>| seen_urls (snd (scrape_page E c s))"
proof -
  have "seen_urls s |\<subseteq>| seen_urls (snd (process_jobs E items (s\<lparr>exchanges := xs\<rparr>)))"
    for items xs
    using process_jobs_mono [of "s\<lparr>exchanges := xs\<rparr>" E items] by simp
  then show ?thesis
    by (simp add: scrape_page_def send_eq log_to_def Let_def split: sum.split outcome.split)
qed

lemma scrape_page_urls:
  assumes "fst (scrape_page E c s) = Inr (jl, c')"
  shows "\<exists>x. filter is_api (exchanges (snd (scrape_page E c s)))
               = filter is_api (exchanges s) @ [x]
           \<and> map job_url jl
               = first_seen (seen_urls s) (List.map_filter (item_url E (base_url s)) (page_items E x))
           \<and> seen_urls (snd (scrape_page E c s))
               = seen_urls s |\<union>| fset_of_list (List.map_filter (item_url E (base_url s))
                                                  (page_items E x))"
proof -
  from assms obtain inp where inp: "input_of s = Inr inp"
    by (cases "input_of s") (auto simp: scrape_page_def)
  let ?rq = "api_request E inp c s"
  let ?out = "net E (length (exchanges s)) ?rq"
  let ?s1 = "s\<lparr>exchanges := exchanges s @ [(?rq, ?out)]\<rparr>"
  from assms inp obtain r where r: "?out = Returns r"
    by (cases ?out) (auto simp: scrape_page_def send_eq Let_def)
  have api: "is_api (?rq, ?out)" by (simp add: is_api_def api_request_def Let_def)
  show ?thesis
  proof (cases "ok r")
    case False
    with assms inp r have "jl = []"
      and "snd (scrape_page E c s) = log_to INFO (Responded_with_status (status_code r)) ?s1"
      by (auto simp: scrape_page_def send_eq Let_def)
    moreover have "page_items E (?rq, ?out) = []" using False r by (simp add: page_items_def)
    ultimately show ?thesis using api
      by (intro exI [of _ "(?rq, ?out)"]) (simp add: log_to_def List.map_filter_simps)
  next
    case True
    let ?pg = "bind_err (page_of_body E r)
                 (\<lambda>page. bind_err (py_iter (fst page)) (\<lambda>items. Inr (items, snd page)))"
    from assms inp r True obtain page where page: "?pg = Inr page"
      by (cases ?pg) (auto simp: scrape_page_def send_eq Let_def)
    have items: "page_items E (?rq, ?out) = fst page"
      using page r True
      by (auto simp: page_items_def bind_err_def split: sum.splits)
    from assms inp r True page have
      jl: "fst (process_jobs E (fst page) ?s1) = Inr jl"
      and st: "snd (scrape_page E c s) = snd (process_jobs E (fst page) ?s1)"
      by (auto simp: scrape_page_def send_eq Let_def split: sum.splits)
    from process_jobs_urls [OF jl] process_jobs_api [of E "fst page" ?s1] api
    show ?thesis
      by (intro exI [of _ "(?rq, ?out)"]) (simp add: st items)
  qed
qed

lemma arrived_urls_Cons:
  "arrived_urls E b (x # xs) = List.map_filter (item_url E b) (page_items E x) @ arrived_urls E b xs"
  by (simp add: arrived_urls_def)

lemma scrape_loop_done:
  "\<not> int (fcard (seen_urls s)) < results_wanted inp + offset inp
   \<Longrightarrow> scrape_loop E inp jl page c s = (Inr jl, s)"
  by (subst scrape_loop.simps) simp

lemma scrape_loop_error:
  "int (fcard (seen_urls s)) < results_wanted inp + offset inp
   \<Longrightarrow> fst (scrape_page E c (log_to INFO (Search_page page (page_count (results_wanted inp))) s))
         = Inl e
   \<Longrightarrow> scrape_loop E inp jl page c s
         = (Inl e, snd (scrape_page E c
                    (log_to INFO (Search_page page (page_count (results_wanted inp))) s)))"
  by (subst scrape_loop.simps) (simp add: Let_def)

lemma scrape_loop_empty:
  "int (fcard (seen_urls s)) < results_wanted inp + offset inp
   \<Longrightarrow> fst (scrape_page E c (log_to INFO (Search_page page (page_count (results_wanted inp))) s))
         = Inr got
   \<Longrightarrow> fst got = []
   \<Longrightarrow> scrape_loop E inp jl page c s
         = (Inr jl, log_to INFO (Found_no_jobs page)
                      (snd (scrape_page E c
                         (log_to INFO (Search_page page (page_count (results_wanted inp))) s))))"
  by (subst scrape_loop.simps) (simp add: Let_def)

lemma scrape_loop_more:
  "int (fcard (seen_urls s)) < results_wanted inp + offset inp
   \<Longrightarrow> fst (scrape_page E c (log_to INFO (Search_page page (page_count (results_wanted inp))) s))
         = Inr got
   \<Longrightarrow> fst got \<noteq> []
   \<Longrightarrow> scrape_loop E inp jl page c s
         = scrape_loop E inp (jl @ fst got) (page + 1) (snd got)
             (snd (scrape_page E c
                (log_to INFO (Search_page page (page_count (results_wanted inp))) s)))"
  by (subst scrape_loop.simps) (simp add: Let_def)

lemma scrape_loop_mono:
  "seen_urls s |\<subseteq>| seen_urls (snd (scrape_loop E inp jl page c s))"
proof (induction E inp jl page c s rule: scrape_loop.induct)
  case (1 E inp job_list page cursor s)
  let ?s0 = "log_to INFO (Search_page page (page_count (results_wanted inp))) s"
  let ?f = "scrape_page E cursor ?s0"
  have pg: "seen_urls s |\<subseteq>| seen_urls (snd ?f)"
    using scrape_page_mono [of ?s0 E cursor] by (simp add: log_to_def)
  show ?case
  proof (cases "int (fcard (seen_urls s)) < results_wanted inp + offset inp")
    case False
    then show ?thesis by (subst scrape_loop.simps) simp
  next
    case True
    show ?thesis
    proof (cases "fst ?f")
      case (Inl e)
      with True pg show ?thesis by (subst scrape_loop.simps) (simp add: Let_def)
    next
      case (Inr got)
      show ?thesis
      proof (cases "fst got = []")
        case True
        with \<open>int (fcard (seen_urls s)) < results_wanted inp + offset inp\<close> Inr pg
        show ?thesis by (subst scrape_loop.simps) (simp add: Let_def log_to_def)
      next
        case False
        from "1.IH" [OF \<open>int (fcard (seen_urls s)) < results_wanted inp + offset inp\<close>
            refl refl Inr False] pg
        have "seen_urls s |\<subseteq>| seen_urls (snd (scrape_loop E inp (job_list @ fst got)
                 (page + 1) (snd got) (snd ?f)))"
          by (rule order_trans [rotated])
        with \<open>int (fcard (seen_urls s)) < results_wanted inp + offset inp\<close> Inr False
        show ?thesis by (subst scrape_loop.simps) (simp add: Let_def)
      qed
    qed
  qed
qed

lemma scrape_loop_urls:
  assumes "fst (scrape_loop E inp jl page c s) = Inr res"
  shows "\<exists>new. filter is_api (exchanges (snd (scrape_loop E inp jl page c s)))
                 = filter is_api (exchanges s) @ new
             \<and> map job_url res
                 = map job_url jl @ first_seen (seen_urls s) (arrived_urls E (base_url s) new)"
  using assms
proof (induction E inp jl page c s arbitrary: res rule: scrape_loop.induct)
  case (1 E inp job_list page cursor s)
  let ?run = "int (fcard (seen_urls s)) < results_wanted inp + offset inp"
  let ?s0 = "log_to INFO (Search_page page (page_count (results_wanted inp))) s"
  let ?f = "scrape_page E cursor ?s0"
  have s0: "seen_urls ?s0 = seen_urls s" "base_url ?s0 = base_url s"
    "exchanges ?s0 = exchanges s"
    by (simp_all add: log_to_def)
  show ?case
  proof (cases ?run)
    case False
    with "1.prems" show ?thesis
      by (intro exI [of _ "[]"]) (simp add: scrape_loop_done arrived_urls_def)
  next
    case True
    from "1.prems" True obtain got where got: "fst ?f = Inr got"
      by (cases "fst ?f") (auto simp: scrape_loop_error)
    then have got': "fst ?f = Inr (fst got, snd got)" by simp
    from scrape_page_urls [OF got'] obtain x where
      x: "filter is_api (exchanges (snd ?f)) = filter is_api (exchanges s) @ [x]"
         "map job_url (fst got)
            = first_seen (seen_urls s) (List.map_filter (item_url E (base_url s)) (page_items E x))"
         "seen_urls (snd ?f)
            = seen_urls s |\<union>| fset_of_list (List.map_filter (item_url E (base_url s))
                                              (page_items E x))"
      unfolding s0 by blast
    show ?thesis
    proof (cases "fst got = []")
      case empty: True
      from "1.prems" x(1,2) show ?thesis
        unfolding scrape_loop_empty [OF True got empty]
        by (intro exI [of _ "[x]"]) (simp add: log_to_def arrived_urls_def empty)
    next
      case False
      note more = scrape_loop_more [OF True got False]
      from "1.prems" have "fst (scrape_loop E inp (job_list @ fst got) (page + 1) (snd got)
                                 (snd ?f)) = Inr res"
        unfolding more .
      from "1.IH" [OF True refl refl got False this] obtain new where
        new: "filter is_api (exchanges (snd (scrape_loop E inp (job_list @ fst got) (page + 1)
                  (snd got) (snd ?f)))) = filter is_api (exchanges (snd ?f)) @ new"
             "map job_url res = map job_url (job_list @ fst got)
                  @ first_seen (seen_urls (snd ?f)) (arrived_urls E (base_url (snd ?f)) new)"
        by blast
      show ?thesis
        unfolding more
        using new x
        by (intro exI [of _ "x # new"]) (simp add: s0 arrived_urls_Cons first_seen_append)
    qed
  qed
qed

lemma py_slice_window:
  assumes "0 \<le> lo" and "0 \<le> n"
  shows "py_slice xs lo (lo + n) = take (nat n) (drop (nat lo) xs)"
proof (cases "lo < int (length xs)")
  case True
  with assms show ?thesis
    by (auto simp: py_slice_def Let_def min_def nat_diff_distrib nat_add_distrib)
next
  case False
  with assms show ?thesis by (simp add: py_slice_def Let_def min_def)
qed

lemma begin_scrape_fields [simp]:
  "seen_urls (begin_scrape inp s) = seen_urls s"
  "exchanges (begin_scrape inp s) = exchanges s"
  "scraper_input (begin_scrape inp s) = Some inp"
  "base_url (begin_scrape inp s) = Some (''https://'' @ fst (country inp) @ ''.indeed.com'')"
  by (simp_all add: begin_scrape_def)

lemma scrape_Inr:
  assumes "fst (scrape E inp s) = Inr res"
  obtains acc where "fst (scrape_loop E inp [] 1 JNull (begin_scrape inp s)) = Inr acc"
    and "res = py_slice acc (offset inp) (offset inp + results_wanted inp)"
  using assms
  by (cases "fst (scrape_loop E inp [] 1 JNull (begin_scrape inp s))")
     (auto simp: scrape_def Let_def)

lemma scrape_snd: "snd (scrape E inp s) = snd (scrape_loop E inp [] 1 JNull (begin_scrape inp s))"
  by (simp add: scrape_def Let_def split: sum.split)


section \<open>Filter precedence\<close>

lemma digit_char_set: "d < 10 \<Longrightarrow> digit_char d \<in> set ''0123456789''"
  unfolding digit_char_def by (rule nth_mem) simp

lemma show_nat_chars: "set (show_nat n) \<subseteq> set ''0123456789''"
proof (induction n rule: show_nat.induct)
  case (1 n)
  show ?case
  proof (cases "n < 10")
    case True
    then show ?thesis using digit_char_set [of n] by (subst show_nat.simps) simp
  next
    case False
    have "digit_char (n mod 10) \<in> set ''0123456789''" by (rule digit_char_set) simp
    with False 1 show ?thesis by (subst show_nat.simps) simp
  qed
qed

lemma show_int_chars: "set (show_int i) \<subseteq> set ''-0123456789''"
proof -
  have sub: "set (show_nat n) \<subseteq> set (CHR ''-'' # ''0123456789'')" for n
    using show_nat_chars [of n] by (rule subset_trans) (rule set_subset_Cons)
  show ?thesis
  proof (cases "i < 0")
    case True
    then have "show_int i = CHR ''-'' # show_nat (nat (- i))" by (simp add: show_int_def)
    then show ?thesis using sub [of "nat (- i)"] by simp
  next
    case False
    then have "show_int i = show_nat (nat i)" by (simp add: show_int_def)
    then show ?thesis using sub [of "nat i"] by simp
  qed
qed

lemma sublist_set: "sublist xs ys \<Longrightarrow> set xs \<subseteq> set ys"
  by (auto simp: sublist_def)

lemma date_filter_set:
  \<open>set (date_filter t) = set t \<union> set '' \<newline>filters:{daOnIh",}''\<close>
  unfolding date_filter_def by (simp add: insert_commute)


text \<open>
  C4, as stated, at \<^verbatim>\<open>hours_old = 0\<close>: the field is set, yet its truth value is false, so
  the builder falls through to the easy-apply branch and emits the
  \<^verbatim>\<open>indeedApplyScope\<close> filter.
\<close>

theorem build_filters_hours_old_zero:
  "hours_old crit0 \<noteq> None \<and> build_filters crit0 = easy_apply_filter
   \<and> sublist ''indeedApplyScope'' (build_filters crit0)"
proof -
  have eq: "build_filters crit0 = easy_apply_filter"
    by (simp add: build_filters_def crit0_def int_opt_truthy_def)
  have "easy_apply_filter = (''\<newline>            filters: {\<newline>'' @
     ''                keyword: {\<newline>'' @ ''                  field: '' @ [CHR 0x22])
     @ ''indeedApplyScope'' @ (CHR 0x22 # '',\<newline>'' @
     ''                  keys: ['' @ [CHR 0x22] @ ''DESKTOP'' @ [CHR 0x22] @ '']\<newline>'' @
     ''                }\<newline>'' @
     ''            }\<newline>'' @
     ''            '')"
    by (simp add: easy_apply_filter_def)
  then have "sublist ''indeedApplyScope'' easy_apply_filter"
    unfolding sublist_def by blast
  with eq show ?thesis by (simp add: crit0_def)
qed

text \<open>
  C4 (amended): for every search criteria whose \<^verbatim>\<open>hours_old\<close> is set to a non-zero
  value, the emitted fragment is exactly the date-window filter on that number of hours,
  and it contains none of the words of the easy-apply form (\<^verbatim>\<open>indeedApplyScope\<close>,
  \<^verbatim>\<open>keyword\<close>) or of the job-type/remote form (\<^verbatim>\<open>composite\<close>, \<^verbatim>\<open>attributes\<close>),
  whatever the easy-apply, job-type and remote fields hold.
\<close>

theorem build_filters_hours_old:
  assumes "hours_old inp = Some h" and "h \<noteq> 0"
  shows "build_filters inp = date_filter (show_int h)
       \<and> \<not> sublist ''indeedApplyScope'' (build_filters inp)
       \<and> \<not> sublist ''composite'' (build_filters inp)
       \<and> \<not> sublist ''attributes'' (build_filters inp)
       \<and> \<not> sublist ''keyword'' (build_filters inp)"
proof -
  let ?f = "date_filter (show_int h)"
  have eq: "build_filters inp = ?f"
    using assms by (simp add: build_filters_def int_opt_truthy_def fmt_int_opt_def)
  have chars: \<open>set ?f \<subseteq> set ''-0123456789'' \<union> set '' \<newline>filters:{daOnIh",}''\<close>
    using show_int_chars [of h] by (auto simp only: date_filter_set)
  have no: "\<not> sublist w ?f"
    if "c \<in> set w" and \<open>c \<notin> set ''-0123456789'' \<union> set '' \<newline>filters:{daOnIh",}''\<close> for w c
    using that chars sublist_set [of w ?f] by blast
  have a: "\<not> sublist ''indeedApplyScope'' ?f" by (rule no [of "CHR ''A''"]) simp_all
  have b: "\<not> sublist ''composite'' ?f" by (rule no [of "CHR ''m''"]) simp_all
  have c: "\<not> sublist ''attributes'' ?f" by (rule no [of "CHR ''b''"]) simp_all
  have d: "\<not> sublist ''keyword'' ?f" by (rule no [of "CHR ''k''"]) simp_all
  show ?thesis using eq a b c d by simp
qed

text \<open>C4 (amended) at \<^verbatim>\<open>hours_old = 72\<close> with the easy-apply flag set.\<close>

theorem build_filters_hours_old_witness:
  "hours_old (crit0\<lparr>hours_old := Some 72\<rparr>) = Some 72 \<and> (72::int) \<noteq> 0
   \<and> build_filters (crit0\<lparr>hours_old := Some 72\<rparr>) = date_filter (show_int 72)
   \<and> \<not> sublist ''indeedApplyScope'' (build_filters (crit0\<lparr>hours_old := Some 72\<rparr>))"
proof -
  have h: "hours_old (crit0\<lparr>hours_old := Some 72\<rparr>) = Some 72" by simp
  have nz: "(72::int) \<noteq> 0" by simp
  show ?thesis using h nz build_filters_hours_old [OF h nz] by blast
qed

section \<open>The posting date is a calendar date\<close>
















section \<open>The company-name fallback and its requests\<close>

text \<open>
  C5, as stated, fails twice on a scraper with a proxy and no CA bundle. When the
  browser-fingerprint request raises, the \<^verbatim>\<open>except\<close> clause ends the lookup: that request
  is the only one sent. When it is answered 403, the proxied request is sent with
  \<^verbatim>\<open>verify=False\<close>, certificate verification switched off.
\<close>

theorem fetch_company_name_no_retry_on_exception:
  "fallback_proxies proxied \<noteq> None
   \<and> net down_env (length (exchanges proxied)) (browser_get ''u'') = Raises
   \<and> exchanges (snd (fetch_company_name down_env ''u'' proxied)) = [(browser_get ''u'', Raises)]
   \<and> map (\<lambda>x. verify (fst x)) (exchanges (snd (fetch_company_name blocked_env ''u'' proxied)))
       = [None, Some Verify_False]"
  by (simp add: fetch_defs proxied_def begin_scrape_def Indeed_init_def down_env_def
      blocked_env_def plain_env_def answer_def browser_get_def proxied_get_def)

text \<open>
  C5 (amended): the browser-fingerprint request is sent first. Exactly one further
  request follows when, and only when, that request returns a response that is not ok
  and a proxy is configured; it goes through the plain client with the configured proxy
  and with \<^verbatim>\<open>verify\<close> set to the configured CA bundle, or to \<^verbatim>\<open>False\<close> when none is
  configured. A first request that raises is not retried. Whenever the last request sent
  raises or returns a response that is not ok, the lookup returns \<^verbatim>\<open>None\<close>; it never
  raises.
\<close>

theorem fetch_company_name_tiers:
  "exchanges (snd (fetch_company_name E u s))
     = exchanges s @ (browser_get u, net E (length (exchanges s)) (browser_get u))
       # (case net E (length (exchanges s)) (browser_get u) of
            Raises \<Rightarrow> []
          | Returns r \<Rightarrow>
              if \<not> ok r \<and> fallback_proxies s \<noteq> None
              then [(proxied_get u s, net E (Suc (length (exchanges s))) (proxied_get u s))]
              else [])
   \<and> channel (browser_get u) = html_session \<and> proxies (browser_get u) = None
   \<and> channel (proxied_get u s) = req_lib \<and> proxies (proxied_get u s) = fallback_proxies s
   \<and> verify (proxied_get u s) = Some (ca_cert s)
   \<and> (net E (length (exchanges s)) (browser_get u) = Raises
        \<longrightarrow> fst (fetch_company_name E u s) = JNull)
   \<and> (\<forall>r. net E (length (exchanges s)) (browser_get u) = Returns r \<and> \<not> ok r
            \<and> fallback_proxies s = None
        \<longrightarrow> fst (fetch_company_name E u s) = JNull)
   \<and> (\<forall>r. net E (length (exchanges s)) (browser_get u) = Returns r \<and> \<not> ok r
            \<and> fallback_proxies s \<noteq> None
            \<and> (net E (Suc (length (exchanges s))) (proxied_get u s) = Raises
                \<or> (\<exists>r2. net E (Suc (length (exchanges s))) (proxied_get u s) = Returns r2
                         \<and> \<not> ok r2))
        \<longrightarrow> fst (fetch_company_name E u s) = JNull)"
proof -
  have a: "fst (fetch_company_name E u s) = JNull"
    if "net E (length (exchanges s)) (browser_get u) = Raises"
    using that by (simp add: fetch_defs)
  have b: "fst (fetch_company_name E u s) = JNull"
    if "net E (length (exchanges s)) (browser_get u) = Returns r" "\<not> ok r"
       "fallback_proxies s = None" for r
    using that by (simp add: fetch_defs)
  have c: "fst (fetch_company_name E u s) = JNull"
    if "net E (length (exchanges s)) (browser_get u) = Returns r" "\<not> ok r"
       "fallback_proxies s \<noteq> None"
       "net E (Suc (length (exchanges s))) (proxied_get u s) = Raises
        \<or> (\<exists>r2. net E (Suc (length (exchanges s))) (proxied_get u s) = Returns r2 \<and> \<not> ok r2)"
    for r
    using that by (auto simp add: fetch_defs proxied_get_def)
  have d: "channel (browser_get u) = html_session \<and> proxies (browser_get u) = None
     \<and> channel (proxied_get u s) = req_lib \<and> proxies (proxied_get u s) = fallback_proxies s
     \<and> verify (proxied_get u s) = Some (ca_cert s)"
    by (simp add: browser_get_def proxied_get_def)
  show ?thesis using fetch_exchanges [of E u s] a b c d by blast
qed

text \<open>C5 (amended) on three runs: every request raises; every request is answered 403
  and there is no proxy; every request is answered 403 and there is a proxy.\<close>

theorem fetch_company_name_tiers_witness:
  "net down_env (length (exchanges proxied)) (browser_get ''u'') = Raises
   \<and> fst (fetch_company_name down_env ''u'' proxied) = JNull
   \<and> net blocked_env (length (exchanges fresh)) (browser_get ''u'') = answer False 403 []
   \<and> fallback_proxies fresh = None
   \<and> exchanges (snd (fetch_company_name blocked_env ''u'' fresh))
       = [(browser_get ''u'', answer False 403 [])]
   \<and> fst (fetch_company_name blocked_env ''u'' fresh) = JNull
   \<and> fallback_proxies proxied = Some ''http://proxy:8080''
   \<and> exchanges (snd (fetch_company_name blocked_env ''u'' proxied))
       = [(browser_get ''u'', answer False 403 []),
          (proxied_get ''u'' proxied, answer False 403 [])]
   \<and> fst (fetch_company_name blocked_env ''u'' proxied) = JNull"
proof -
  have e: "exchanges proxied = []" "exchanges fresh = []"
    "fallback_proxies proxied = Some ''http://proxy:8080''" "fallback_proxies fresh = None"
    by (simp_all add: proxied_def fresh_def begin_scrape_def Indeed_init_def)
  have n: "net down_env k rq = Raises" "net blocked_env k rq = answer False 403 []" for k rq
    by (simp_all add: down_env_def blocked_env_def plain_env_def)
  have o: "answer False 403 [] = Returns \<lparr>ok = False, status_code = 403, body_text = []\<rparr>"
    by (simp add: answer_def)
  show ?thesis
    using fetch_company_name_tiers [of down_env "''u''" proxied]
      fetch_company_name_tiers [of blocked_env "''u''" fresh]
      fetch_company_name_tiers [of blocked_env "''u''" proxied]
    by (simp add: e n o)
qed


section \<open>Normalizing one record\<close>

text \<open>
  C6: the record \<open>sparse_job\<close> has no employer, no compensation, no recruiting links
  and no location, each reported as \<^verbatim>\<open>null\<close>. Its normalization raises, whatever the
  helpers and the network do: \<^verbatim>\<open>job.get("location", {})\<close> returns the \<^verbatim>\<open>null\<close> that is
  there, not the default, and \<^verbatim>\<open>.get("city")\<close> on it is an \<^verbatim>\<open>AttributeError\<close>.
\<close>

theorem process_job_null_location_raises:
  "(\<exists>e. fst (process_job E sparse_job fresh) = Inl e)
   \<and> fst (process_job one_page_env sparse_job fresh) = Inl AttributeError"
proof -
  have k: "subscr sparse_job ''key'' = Inr (JStr ''a'')" by (simp add: sparse_job_def)
  have loc: "py_get_default sparse_job ''location'' (JObj []) = Inr JNull"
    by (simp add: sparse_job_def)
  have no: "job_post_of E t sparse_job w L n \<noteq> Inr p" for t w L n p
  proof
    assume "job_post_of E t sparse_job w L n = Inr p"
    then show False unfolding job_post_of_def
      by (elim bind_err_InrE) (simp add: loc py_get_def)
  qed
  have general: "\<exists>e. fst (process_job E sparse_job fresh) = Inl e"
  proof (cases "fst (process_job E sparse_job fresh)")
    case (Inr r)
    then show ?thesis
      by (auto simp: process_job_def k Let_def fresh_def begin_scrape_def Indeed_init_def no
          split: sum.splits)
  qed auto
  have concrete: "fst (process_job one_page_env sparse_job fresh) = Inl AttributeError"
    by code_simp
  from general concrete show ?thesis by blast
qed

text \<open>
  C10: for a record whose URL is not yet in \<^verbatim>\<open>seen_urls\<close>, the URL is in \<^verbatim>\<open>seen_urls\<close>
  after the call whatever the call returns or raises; if reading the first field after
  the key raises, the state left behind is the old one with the URL added; and a later
  call on the same record, in any state of the session that still holds the URL, skips
  it and changes nothing.
\<close>

theorem seen_urls_kept_on_error:
  assumes "subscr job ''key'' = Inr k" and "viewjob_url E s k |\<notin>| seen_urls s"
  shows "viewjob_url E s k |\<in>| seen_urls (snd (process_job E job s))
       \<and> (\<forall>e. job_locals_of E (s\<lparr>seen_urls := finsert (viewjob_url E s k) (seen_urls s)\<rparr>) job
                 = Inl e
              \<longrightarrow> process_job E job s
                    = (Inl e, s\<lparr>seen_urls := finsert (viewjob_url E s k) (seen_urls s)\<rparr>))
       \<and> (\<forall>s2. seen_urls (snd (process_job E job s)) |\<subseteq>| seen_urls s2
                 \<and> base_url s2 = base_url s
              \<longrightarrow> process_job E job s2 = (Inr None, s2))"
proof -
  have seen: "seen_urls (snd (process_job E job s)) = finsert (viewjob_url E s k) (seen_urls s)"
    using assms(1) by (simp add: process_job_seen)
  have err: "process_job E job s
               = (Inl e, s\<lparr>seen_urls := finsert (viewjob_url E s k) (seen_urls s)\<rparr>)"
    if "job_locals_of E (s\<lparr>seen_urls := finsert (viewjob_url E s k) (seen_urls s)\<rparr>) job = Inl e"
    for e
    using that assms by (simp add: process_job_def Let_def)
  have again: "process_job E job s2 = (Inr None, s2)"
    if "seen_urls (snd (process_job E job s)) |\<subseteq>| seen_urls s2 \<and> base_url s2 = base_url s"
    for s2
  proof -
    from that have "viewjob_url E s2 k = viewjob_url E s k"
      by (simp add: viewjob_url_def)
    moreover from that seen have "viewjob_url E s k |\<in>| seen_urls s2"
      by auto
    ultimately have "viewjob_url E s2 k |\<in>| seen_urls s2" by simp
    with assms(1) show ?thesis by (simp add: process_job_def Let_def)
  qed
  from seen have "viewjob_url E s k |\<in>| seen_urls (snd (process_job E job s))" by simp
  with err again show ?thesis by blast
qed

text \<open>C10 on a record that has a key and nothing else: reading \<^verbatim>\<open>job["description"]\<close>
  raises \<^verbatim>\<open>KeyError\<close>, the URL stays, and the second call returns nothing.\<close>

theorem seen_urls_kept_on_error_witness:
  "subscr (JObj [(''key'', JStr ''a'')]) ''key'' = Inr (JStr ''a'')
   \<and> viewjob_url one_page_env fresh (JStr ''a'') |\<notin>| seen_urls fresh
   \<and> fst (process_job one_page_env (JObj [(''key'', JStr ''a'')]) fresh) = Inl KeyError
   \<and> viewjob_url one_page_env fresh (JStr ''a'')
       |\<in>| seen_urls (snd (process_job one_page_env (JObj [(''key'', JStr ''a'')]) fresh))
   \<and> process_job one_page_env (JObj [(''key'', JStr ''a'')])
        (snd (process_job one_page_env (JObj [(''key'', JStr ''a'')]) fresh))
       = (Inr None, snd (process_job one_page_env (JObj [(''key'', JStr ''a'')]) fresh))"
proof -
  have k: "subscr (JObj [(''key'', JStr ''a'')]) ''key'' = Inr (JStr ''a'')" by simp
  have n: "viewjob_url one_page_env fresh (JStr ''a'') |\<notin>| seen_urls fresh"
    by (simp add: fresh_def begin_scrape_def Indeed_init_def)
  have e: "job_locals_of one_page_env
             (fresh\<lparr>seen_urls := finsert (viewjob_url one_page_env fresh (JStr ''a''))
                                   (seen_urls fresh)\<rparr>)
             (JObj [(''key'', JStr ''a'')]) = Inl KeyError"
    by (simp add: job_locals_of_def bind_err_def)
  show ?thesis
    using seen_urls_kept_on_error [OF k n] e k n by simp
qed

section \<open>Sessions: pagination, deduplication and the returned slice\<close>



text \<open>
  C2: when normalizing a record yields a posting, its URL was not yet seen, and
  normalizing the same record again, at once or in any later state of the session,
  yields nothing and leaves the state as it is. The postings accumulated by one call of
  \<^verbatim>\<open>scrape\<close> have pairwise different URLs, none of them seen before the call, and so
  have the postings returned.
\<close>

theorem no_two_postings_share_a_url:
  assumes "process_job E job s = (Inr (Some p), s1)"
  shows "job_url p |\<notin>| seen_urls s
       \<and> process_job E job s1 = (Inr None, s1)
       \<and> (\<forall>s2. seen_urls s1 |\<subseteq>| seen_urls s2 \<and> base_url s2 = base_url s
              \<longrightarrow> process_job E job s2 = (Inr None, s2))
       \<and> (\<forall>inp t acc. fst (scrape_loop E inp [] 1 JNull (begin_scrape inp t)) = Inr acc
              \<longrightarrow> distinct (map job_url acc) \<and> (\<forall>q \<in> set acc. job_url q |\<notin>| seen_urls t))
       \<and> (\<forall>inp t res. fst (scrape E inp t) = Inr res \<longrightarrow> distinct (map job_url res))"
proof -
  from process_job_result [OF assms] obtain k where
    k: "subscr job ''key'' = Inr k" "viewjob_url E s k |\<notin>| seen_urls s"
       "job_url p = viewjob_url E s k"
    by auto
  have s1: "seen_urls s1 = finsert (viewjob_url E s k) (seen_urls s)" "base_url s1 = base_url s"
    using process_job_seen [of E job s] process_job_base_url [of E job s] assms k(1) by simp_all
  have again: "process_job E job s2 = (Inr None, s2)"
    if "seen_urls s1 |\<subseteq>| seen_urls s2 \<and> base_url s2 = base_url s" for s2
  proof -
    from that have "viewjob_url E s2 k = viewjob_url E s k" by (simp add: viewjob_url_def)
    moreover from that s1 have "viewjob_url E s k |\<in>| seen_urls s2" by auto
    ultimately have "viewjob_url E s2 k |\<in>| seen_urls s2" by simp
    with k(1) show ?thesis by (simp add: process_job_def Let_def)
  qed
  have loop: "distinct (map job_url acc) \<and> (\<forall>q \<in> set acc. job_url q |\<notin>| seen_urls t)"
    if "fst (scrape_loop E inp [] 1 JNull (begin_scrape inp t)) = Inr acc" for inp t acc
  proof -
    from scrape_loop_urls [OF that] obtain new where
      "map job_url acc = first_seen (seen_urls t)
          (arrived_urls E (base_url (begin_scrape inp t)) new)"
      by auto
    then show ?thesis
      using first_seen_distinct [of "seen_urls t"
              "arrived_urls E (base_url (begin_scrape inp t)) new"]
        first_seen_fresh [of "seen_urls t" "arrived_urls E (base_url (begin_scrape inp t)) new"]
      by (metis disjoint_iff image_eqI list.set_map)
  qed
  have whole: "distinct (map job_url res)" if "fst (scrape E inp t) = Inr res" for inp t res
  proof -
    from that obtain acc where
      acc: "fst (scrape_loop E inp [] 1 JNull (begin_scrape inp t)) = Inr acc"
      and res: "res = py_slice acc (offset inp) (offset inp + results_wanted inp)"
      by (rule scrape_Inr)
    from loop [OF acc] have "distinct (map job_url acc)" by simp
    then show ?thesis unfolding res py_slice_def Let_def
      by (simp add: take_map [symmetric] drop_map [symmetric])
  qed
  from k(2,3) again [of s1] s1(2) again loop whole show ?thesis by auto
qed

text \<open>C2 on the record \<open>a\<close> at the start of a session, and on a call of \<^verbatim>\<open>scrape\<close>
  against the three-page provider, whose pages repeat \<open>a\<close> and \<open>b\<close>.\<close>

theorem no_two_postings_share_a_url_witness:
  "\<exists>p s1. process_job one_page_env (raw_job ''a'' acme) fresh = (Inr (Some p), s1)
      \<and> job_url p |\<notin>| seen_urls fresh
      \<and> process_job one_page_env (raw_job ''a'' acme) s1 = (Inr None, s1)
      \<and> (\<exists>res. fst (scrape one_page_env crit1 new_scraper) = Inr res
             \<and> distinct (map job_url res))"
proof -
  have "(case fst (process_job one_page_env (raw_job ''a'' acme) fresh) of
           Inr (Some p) \<Rightarrow> True | _ \<Rightarrow> False)"
    by code_simp
  then obtain p s1 where
    p: "process_job one_page_env (raw_job ''a'' acme) fresh = (Inr (Some p), s1)"
    by (cases "process_job one_page_env (raw_job ''a'' acme) fresh")
       (auto split: sum.splits option.splits)
  have "(case fst (scrape one_page_env crit1 new_scraper) of
           Inr res \<Rightarrow> True | Inl e \<Rightarrow> False)"
    by code_simp
  then obtain res where res: "fst (scrape one_page_env crit1 new_scraper) = Inr res"
    by (cases "fst (scrape one_page_env crit1 new_scraper)") auto
  note t = no_two_postings_share_a_url [OF p]
  from t res have "distinct (map job_url res)" by blast
  with t p res show ?thesis by blast
qed

text \<open>
  C3: for a non-negative offset \<open>o\<close> and a non-negative number of wanted results \<open>r\<close>,
  the sequence returned by \<^verbatim>\<open>scrape\<close> has at most \<open>r\<close> elements and is the slice from \<open>o\<close>
  to \<open>o + r\<close> of the accumulated postings; and the URLs of the accumulated postings are
  the first occurrences, in arrival order over the API responses of the call, of the
  records' URLs that were not seen before the call.
\<close>

theorem scrape_returns_slice:
  assumes "0 \<le> offset inp" and "0 \<le> results_wanted inp"
    and "fst (scrape E inp s) = Inr res"
  shows "length res \<le> nat (results_wanted inp)
       \<and> (\<exists>acc. fst (scrape_loop E inp [] 1 JNull (begin_scrape inp s)) = Inr acc
              \<and> res = take (nat (results_wanted inp)) (drop (nat (offset inp)) acc)
              \<and> map job_url acc
                  = first_seen (seen_urls s)
                      (arrived_urls E (Some (''https://'' @ fst (country inp) @ ''.indeed.com''))
                         (drop (length (filter is_api (exchanges s)))
                               (filter is_api (exchanges (snd (scrape E inp s)))))))"
proof -
  from assms(3) obtain acc where
    acc: "fst (scrape_loop E inp [] 1 JNull (begin_scrape inp s)) = Inr acc"
    and res: "res = py_slice acc (offset inp) (offset inp + results_wanted inp)"
    by (rule scrape_Inr)
  have slice: "res = take (nat (results_wanted inp)) (drop (nat (offset inp)) acc)"
    unfolding res using assms(1,2) by (rule py_slice_window)
  from scrape_loop_urls [OF acc] obtain new where
    new: "filter is_api (exchanges (snd (scrape E inp s))) = filter is_api (exchanges s) @ new"
         "map job_url acc
            = first_seen (seen_urls s)
                (arrived_urls E (Some (''https://'' @ fst (country inp) @ ''.indeed.com'')) new)"
    by (auto simp: scrape_snd)
  have "drop (length (filter is_api (exchanges s)))
             (filter is_api (exchanges (snd (scrape E inp s)))) = new"
    by (simp add: new(1))
  with acc slice new(2) show ?thesis by auto
qed

text \<open>C3 on the three-page provider with \<open>r = 2\<close> and \<open>o = 1\<close>: \<open>a\<close>, \<open>b\<close>, \<open>c\<close> are
  accumulated and \<open>b\<close>, \<open>c\<close> returned.\<close>

theorem scrape_returns_slice_witness:
  "0 \<le> offset crit2 \<and> 0 \<le> results_wanted crit2
   \<and> (\<exists>res. fst (scrape three_page_env crit2 new_scraper) = Inr res
          \<and> map job_url res = [''https://www.indeed.com/viewjob?jk=b'',
                                 ''https://www.indeed.com/viewjob?jk=c'']
          \<and> length res \<le> nat (results_wanted crit2))"
proof -
  have b: "0 \<le> offset crit2" "0 \<le> results_wanted crit2"
    by (simp_all add: crit2_def crit1_def)
  have "map_sum id (map job_url) (fst (scrape three_page_env crit2 new_scraper))
          = Inr [''https://www.indeed.com/viewjob?jk=b'', ''https://www.indeed.com/viewjob?jk=c'']"
    by code_simp
  then obtain res where
    res: "fst (scrape three_page_env crit2 new_scraper) = Inr res"
         "map job_url res = [''https://www.indeed.com/viewjob?jk=b'',
                             ''https://www.indeed.com/viewjob?jk=c'']"
    by (cases "fst (scrape three_page_env crit2 new_scraper)") auto
  from scrape_returns_slice [OF b res(1)]
  have "length res \<le> nat (results_wanted crit2)" by (rule conjunct1)
  with b res show ?thesis by (intro conjI exI [of _ res]) simp_all
qed

text \<open>
  C7, as stated, fails on the second call of \<^verbatim>\<open>scrape\<close> on one scraper: the first call
  returns the posting \<open>a\<close>; the second call starts with that URL in \<^verbatim>\<open>seen_urls\<close>, its
  target of one URL is already met, so it sends no request and returns nothing.
\<close>

theorem second_scrape_starts_with_seen_urls:
  "map_sum id (map job_url) (fst (scrape one_page_env crit1 new_scraper))
     = Inr [''https://www.indeed.com/viewjob?jk=a'']
   \<and> ''https://www.indeed.com/viewjob?jk=a'' |\<in>| seen_urls (begin_scrape crit1 used_scraper)
   \<and> fst (scrape one_page_env crit1 used_scraper) = Inr []
   \<and> exchanges (snd (scrape one_page_env crit1 used_scraper)) = exchanges used_scraper"
  by code_simp

text \<open>
  C7 (amended): \<^verbatim>\<open>seen_urls\<close> is scoped to a scraper instance. It is empty when the
  instance is constructed; \<^verbatim>\<open>scrape\<close> does not reset it; and \<^verbatim>\<open>_process_job\<close>,
  \<^verbatim>\<open>_scrape_page\<close> and \<^verbatim>\<open>scrape\<close> only add to it, whether they return or raise.
\<close>

theorem seen_urls_per_instance:
  "seen_urls (Indeed_init proxies_cfg ca) = {||}
   \<and> seen_urls (begin_scrape inp s) = seen_urls s
   \<and> seen_urls s |\<subseteq>| seen_urls (snd (process_job E job s))
   \<and> seen_urls s |\<subseteq>| seen_urls (snd (scrape_page E cursor s))
   \<and> seen_urls s |\<subseteq>| seen_urls (snd (scrape E inp s))"
proof -
  have a: "seen_urls (Indeed_init proxies_cfg ca) = {||}" by (simp add: Indeed_init_def)
  have b: "seen_urls s |\<subseteq>| seen_urls (snd (process_job E job s))"
    by (auto simp: process_job_seen split: sum.split)
  have c: "seen_urls s |\<subseteq>| seen_urls (snd (scrape E inp s))"
    using scrape_loop_mono [of "begin_scrape inp s" E inp "[]" 1 JNull]
    by (simp add: scrape_snd)
  from a b c scrape_page_mono [of s E cursor] show ?thesis by simp
qed


end
